theory Spec2Isabelle
  imports Complex_Main "HOL-Library.Word"
begin

section \<open>JavaScript values\<close>

text \<open>
  A JavaScript string is a sequence of UTF-16 code units; \<open>s.length\<close> is their number
  and \<open>s.charCodeAt(i)\<close> the value of the i-th. String literals of the program are
  written \<open>str ''...''\<close>. A \<open>number\<close> that holds a confidence or a configured limit is
  a finite double, modelled by the rational it denotes (the schema refuses NaN), so
  that every comparison is exact; \<open>Date.now()\<close> is an integer count of milliseconds.
  The two products \<open>minutes * 60 * 1000\<close> are taken in the rationals: they are what
  the program computes for a whole number of minutes (such as the defaults 10 and 30),
  while for some fractional settings the double product is one unit in the last place
  larger, and the program then still blocks at the one boundary millisecond at which
  these definitions allow.
\<close>

type_synonym jsstring = "16 word list"
type_synonym number = rat

definition str :: "string \<Rightarrow> jsstring" where
  "str s = map (\<lambda>c. of_nat (of_char c)) s"

text \<open>Truthiness of an optional string: \<open>undefined\<close> and \<open>""\<close> are falsy.\<close>

definition truthy :: "jsstring option \<Rightarrow> bool" where
  "truthy v = (case v of None \<Rightarrow> False | Some s \<Rightarrow> s \<noteq> [])"

text \<open>
  The code units that the regular expression class \<open>\s\<close> matches and that \<open>trim()\<close>
  strips (ECMAScript WhiteSpace and LineTerminator): TAB, LF, VT, FF, CR, SP, NBSP,
  U+1680, U+2000..U+200A, U+2028, U+2029, U+202F, U+205F, U+3000, U+FEFF.
\<close>

definition isWhiteSpace :: "16 word \<Rightarrow> bool" where
  "isWhiteSpace c =
     (c = 9 \<or> c = 10 \<or> c = 11 \<or> c = 12 \<or> c = 13 \<or> c = 32 \<or> c = 160 \<or> c = 5760 \<or>
      (8192 \<le> c \<and> c \<le> 8202) \<or> c = 8232 \<or> c = 8233 \<or> c = 8239 \<or> c = 8287 \<or>
      c = 12288 \<or> c = 65279)"

text \<open>\<open>s.replace(/\s+/g, " ")\<close>: every maximal run of white space becomes one space.\<close>

function collapseWhiteSpace :: "jsstring \<Rightarrow> jsstring" where
  "collapseWhiteSpace [] = []"
| "collapseWhiteSpace (c # cs) =
     (if isWhiteSpace c then 32 # collapseWhiteSpace (dropWhile isWhiteSpace cs)
      else c # collapseWhiteSpace cs)"
  by pat_completeness auto
termination
  by (relation "measure length") (auto simp: length_dropWhile_le less_Suc_eq_le)

text \<open>\<open>trim()\<close> strips the white space at both ends.\<close>

definition trimStart :: "jsstring \<Rightarrow> jsstring" where
  "trimStart s = dropWhile isWhiteSpace s"

definition trimEnd :: "jsstring \<Rightarrow> jsstring" where
  "trimEnd s = rev (dropWhile isWhiteSpace (rev s))"

definition trim :: "jsstring \<Rightarrow> jsstring" where
  "trim s = trimEnd (trimStart s)"

text \<open>
  \<open>String(h)\<close> for an integer \<open>h\<close>: its decimal digits, with a minus sign when negative.
\<close>

function digitsOf :: "nat \<Rightarrow> jsstring" where
  "digitsOf n = (if n < 10 then [of_nat (48 + n)] else digitsOf (n div 10) @ [of_nat (48 + n mod 10)])"
  by pat_completeness auto
termination
  by (relation "measure id") auto

definition String_of_int :: "int \<Rightarrow> jsstring" where
  "String_of_int i = (if i < 0 then 45 # digitsOf (nat (- i)) else digitsOf (nat i))"

text \<open>
  The rolling hash of both fingerprints: \<open>h = (h * 31 + s.charCodeAt(i)) | 0\<close>. \<open>h\<close> is
  a 32-bit integer, so the product and the sum are exact in a double and \<open>| 0\<close> wraps
  them to 32 bits, read as signed.
\<close>

definition hashStep :: "32 word \<Rightarrow> 16 word \<Rightarrow> 32 word" where
  "hashStep h c = h * 31 + ucast c"

definition rollingHash :: "jsstring \<Rightarrow> jsstring" where
  "rollingHash s = String_of_int (sint (foldl hashStep 0 s))"

text \<open>
  \<open>toLowerCase()\<close> is the engine's Unicode lower-casing; the functions that call it take
  it as the parameter \<open>lc\<close>. \<open>asciiLowerCase\<close> is what it does on strings of ASCII code
  units, and serves to run the model on such inputs.
\<close>

definition asciiLowerCase :: "jsstring \<Rightarrow> jsstring" where
  "asciiLowerCase s = map (\<lambda>c. if 65 \<le> c \<and> c \<le> 90 then c + 32 else c) s"

definition normalize :: "(jsstring \<Rightarrow> jsstring) \<Rightarrow> jsstring \<Rightarrow> jsstring" where
  "normalize lc s = trim (collapseWhiteSpace (lc s))"

section \<open>Decisions (types/decision.ts)\<close>

datatype Action = Post | Comment | Vote | Ignore

datatype VoteDirection = Up | Down

record Decision =
  action :: Action
  targetId :: "jsstring option"
  title :: "jsstring option"
  content :: "jsstring option"
  voteDirection :: "VoteDirection option"
  confidence :: number

section \<open>The policy engine (policy/engine.ts)\<close>

record PolicyConfig =
  maxPostsPerHour :: number
  maxCommentsPerThread :: number
  confidenceThreshold :: number
  maxContentLength :: number
  cooldownMinutesPerSubmolt :: number

definition DEFAULT_CONFIG :: PolicyConfig where
  "DEFAULT_CONFIG = \<lparr> maxPostsPerHour = 5, maxCommentsPerThread = 3,
     confidenceThreshold = 6 / 10, maxContentLength = 2000, cooldownMinutesPerSubmolt = 10 \<rparr>"

datatype PolicyVerdict = Allowed | Rejected string

text \<open>The private fields of \<open>PolicyEngine\<close>; \<open>maxRecentHashes\<close> is the constant 50.\<close>

record PolicyState =
  postsInLastHour :: "int list"
  commentsByThread :: "jsstring \<rightharpoonup> nat"
  lastPostBySubmolt :: "jsstring \<rightharpoonup> int"
  recentContentHashes :: "jsstring list"

definition newPolicyEngine :: PolicyState where
  "newPolicyEngine = \<lparr> postsInLastHour = [], commentsByThread = Map.empty,
     lastPostBySubmolt = Map.empty, recentContentHashes = [] \<rparr>"

definition maxRecentHashes :: nat where
  "maxRecentHashes = 50"

record ValidateContext =
  submoltId :: "jsstring option"
  threadId :: "jsstring option"
  actionSource :: Action

record RecordContext =
  rec_submoltId :: "jsstring option"
  rec_threadId :: "jsstring option"
  rec_content :: "jsstring option"

definition simpleHash :: "(jsstring \<Rightarrow> jsstring) \<Rightarrow> jsstring \<Rightarrow> jsstring" where
  "simpleHash lc s = rollingHash (normalize lc s)"

text \<open>\<open>push\<close>, then \<open>shift\<close> (drop the oldest) when the list is longer than 50.\<close>

definition addContentHash :: "(jsstring \<Rightarrow> jsstring) \<Rightarrow> jsstring \<Rightarrow> PolicyState \<Rightarrow> PolicyState" where
  "addContentHash lc c s =
     (let hs = recentContentHashes s @ [simpleHash lc c]
      in s\<lparr> recentContentHashes := (if length hs > maxRecentHashes then tl hs else hs) \<rparr>)"

definition isRepetition :: "(jsstring \<Rightarrow> jsstring) \<Rightarrow> PolicyState \<Rightarrow> jsstring \<Rightarrow> bool" where
  "isRepetition lc s c = (simpleHash lc c \<in> set (recentContentHashes s))"

text \<open>
  The content checks shared by the post and the comment branch: \<open>None\<close> when neither
  fires (or the content is falsy), else the reason.
\<close>

definition contentChecks ::
  "(jsstring \<Rightarrow> jsstring) \<Rightarrow> PolicyConfig \<Rightarrow> PolicyState \<Rightarrow> jsstring option \<Rightarrow> string option" where
  "contentChecks lc cfg s c =
     (case c of
        None \<Rightarrow> None
      | Some txt \<Rightarrow>
          if txt = [] then None
          else if of_nat (length txt) > maxContentLength cfg then Some ''content too long''
          else if isRepetition lc s txt then Some ''repetition detected''
          else None)"

text \<open>\<open>context.threadId ?? decision.targetId\<close>: the left operand unless it is undefined.\<close>

definition nullish :: "'a option \<Rightarrow> 'a option \<Rightarrow> 'a option" where
  "nullish a b = (case a of Some x \<Rightarrow> Some x | None \<Rightarrow> b)"

text \<open>
  The rules of \<open>validate\<close>, in the order it applies them. \<open>slideWindow\<close> is the
  assignment \<open>postsInLastHour = postsInLastHour.filter(t => t > oneHourAgo)\<close>.
\<close>

definition slideWindow :: "int \<Rightarrow> PolicyState \<Rightarrow> PolicyState" where
  "slideWindow now s =
     (let oneHourAgo = now - 60 * 60 * 1000
      in s\<lparr> postsInLastHour := filter (\<lambda>t. t > oneHourAgo) (postsInLastHour s) \<rparr>)"

definition maxPostsExceeded :: "PolicyConfig \<Rightarrow> PolicyState \<Rightarrow> bool" where
  "maxPostsExceeded cfg s = (of_nat (length (postsInLastHour s)) \<ge> maxPostsPerHour cfg)"

text \<open>
  The cooldown of a submolt: a post was recorded for it less than
  \<open>cooldownMinutesPerSubmolt\<close> minutes ago. The product is exact for a whole number of
  minutes (see the note on numbers above).
\<close>

definition submoltCooldown :: "PolicyConfig \<Rightarrow> int \<Rightarrow> ValidateContext \<Rightarrow> PolicyState \<Rightarrow> bool" where
  "submoltCooldown cfg now ctx s =
     (truthy (submoltId ctx) \<and>
      (case lastPostBySubmolt s (the (submoltId ctx)) of
         Some lastPost \<Rightarrow> of_int (now - lastPost) < cooldownMinutesPerSubmolt cfg * 60 * 1000
       | None \<Rightarrow> False))"

definition maxCommentsExceeded ::
  "PolicyConfig \<Rightarrow> Decision \<Rightarrow> ValidateContext \<Rightarrow> PolicyState \<Rightarrow> bool" where
  "maxCommentsExceeded cfg d ctx s =
     (let tid = nullish (threadId ctx) (targetId d)
      in truthy tid \<and>
         of_nat (case commentsByThread s (the tid) of Some n \<Rightarrow> n | None \<Rightarrow> 0)
           \<ge> maxCommentsPerThread cfg)"

text \<open>
  \<open>validate\<close> at the clock reading \<open>now\<close>. It returns the verdict and the engine's
  state, which it changes only by \<open>slideWindow\<close> (after the ignore and confidence
  returns).
\<close>

definition validate ::
  "(jsstring \<Rightarrow> jsstring) \<Rightarrow> PolicyConfig \<Rightarrow> int \<Rightarrow> Decision \<Rightarrow> ValidateContext \<Rightarrow> PolicyState
     \<Rightarrow> PolicyVerdict \<times> PolicyState" where
  "validate lc cfg now d ctx s =
     (if action d = Ignore then (Allowed, s)
      else if confidence d < confidenceThreshold cfg then (Rejected ''confidence below threshold'', s)
      else
        let s1 = slideWindow now s in
        (case action d of
           Post \<Rightarrow>
             if maxPostsExceeded cfg s1 then (Rejected ''max posts per hour exceeded'', s1)
             else (case contentChecks lc cfg s1 (content d) of
                Some r \<Rightarrow> (Rejected r, s1)
              | None \<Rightarrow>
                  if submoltCooldown cfg now ctx s1 then (Rejected ''submolt cooldown'', s1)
                  else (Allowed, s1))
         | Comment \<Rightarrow>
             if maxCommentsExceeded cfg d ctx s1
             then (Rejected ''max comments per thread exceeded'', s1)
             else (case contentChecks lc cfg s1 (content d) of
                Some r \<Rightarrow> (Rejected r, s1)
              | None \<Rightarrow> (Allowed, s1))
         | Vote \<Rightarrow>
             if \<not> truthy (targetId d) \<or> voteDirection d = None
             then (Rejected ''vote requires targetId and voteDirection'', s1)
             else (Allowed, s1)
         | Ignore \<Rightarrow> (Allowed, s1)))"

text \<open>\<open>recordAction\<close> at the clock reading \<open>now\<close>; its action is \<open>"post" | "comment"\<close>.\<close>

datatype RecordedAction = RecPost | RecComment

definition recordAction ::
  "(jsstring \<Rightarrow> jsstring) \<Rightarrow> int \<Rightarrow> RecordedAction \<Rightarrow> RecordContext \<Rightarrow> PolicyState \<Rightarrow> PolicyState" where
  "recordAction lc now a ctx s =
     (case a of
        RecPost \<Rightarrow>
          let s1 = s\<lparr> postsInLastHour := postsInLastHour s @ [now] \<rparr>;
              s2 = (if truthy (rec_submoltId ctx)
                    then s1\<lparr> lastPostBySubmolt := (lastPostBySubmolt s1)(the (rec_submoltId ctx) \<mapsto> now) \<rparr>
                    else s1)
          in if truthy (rec_content ctx) then addContentHash lc (the (rec_content ctx)) s2 else s2
      | RecComment \<Rightarrow>
          let s1 = (if truthy (rec_threadId ctx)
                    then s\<lparr> commentsByThread := (commentsByThread s)(the (rec_threadId ctx) \<mapsto>
                           (case commentsByThread s (the (rec_threadId ctx)) of Some n \<Rightarrow> n | None \<Rightarrow> 0) + 1) \<rparr>
                    else s)
          in if truthy (rec_content ctx) then addContentHash lc (the (rec_content ctx)) s1 else s1)"

section \<open>The memory store (memory/store.ts)\<close>

datatype Outcome = Executed | Blocked | Skipped

text \<open>
  A timestamp string (\<open>new Date().toISOString()\<close>), by what \<open>new Date(s).getTime()\<close>
  reads from it: a count of milliseconds, or NaN for a string that is no date.
\<close>

datatype DateString = IsoDate int | InvalidDate

record DecisionScope =
  scope_submoltId :: "jsstring option"
  scope_threadId :: "jsstring option"

record StoredDecision =
  sd_at :: DateString
  sd_context :: DecisionScope
  sd_decision :: Decision
  sd_outcome :: "Outcome option"

datatype TickSource = Feed | Submolts | Global

record LastTickSummary =
  lts_at :: DateString
  lts_source :: TickSource
  feedOrSubmoltCount :: nat
  newPostsProcessed :: nat
  dmActivity :: "bool option"
  dmPendingRequests :: "nat option"
  dmUnread :: "nat option"

record MemoryState =
  lastSeenThreadIds :: "jsstring list"
  lastSeenCommentIds :: "jsstring list"
  agentPostIds :: "jsstring list"
  agentCommentIds :: "jsstring list"
  recentDecisions :: "StoredDecision list"
  agentId :: "jsstring option"
  claimedAt :: "DateString option"
  firstPostAttempted :: "bool option"
  recentPostContentHashes :: "jsstring list"
  lastTickAt :: "DateString option"
  lastTickSummary :: "LastTickSummary option"
  lastPostAt :: "DateString option"

definition MAX_LAST_SEEN :: nat where
  "MAX_LAST_SEEN = 500"

definition MAX_AGENT_IDS :: nat where
  "MAX_AGENT_IDS = 200"

definition MAX_RECENT_DECISIONS :: nat where
  "MAX_RECENT_DECISIONS = 100"

definition MAX_RECENT_POST_HASHES :: nat where
  "MAX_RECENT_POST_HASHES = 100"

text \<open>The state a store is constructed with, and the store: its state and dirty flag.\<close>

definition emptyState :: MemoryState where
  "emptyState = \<lparr> lastSeenThreadIds = [], lastSeenCommentIds = [], agentPostIds = [],
     agentCommentIds = [], recentDecisions = [], agentId = None, claimedAt = None,
     firstPostAttempted = None, recentPostContentHashes = [], lastTickAt = None,
     lastTickSummary = None, lastPostAt = None \<rparr>"

record MemoryStore =
  state :: MemoryState
  dirty :: bool

definition newMemoryStore :: MemoryStore where
  "newMemoryStore = \<lparr> state = emptyState, dirty = False \<rparr>"

subsection \<open>The backing file\<close>

text \<open>
  \<open>Partial<MemoryState>\<close>: the object \<open>JSON.parse\<close> returns, read through the cast of
  \<open>load\<close>. A key that is missing or null is \<open>None\<close>; a key that is present holds a value
  of its declared type.
\<close>

record MemoryDoc =
  doc_lastSeenThreadIds :: "jsstring list option"
  doc_lastSeenCommentIds :: "jsstring list option"
  doc_agentPostIds :: "jsstring list option"
  doc_agentCommentIds :: "jsstring list option"
  doc_recentDecisions :: "StoredDecision list option"
  doc_agentId :: "jsstring option"
  doc_claimedAt :: "DateString option"
  doc_firstPostAttempted :: "bool option"
  doc_recentPostContentHashes :: "jsstring list option"
  doc_lastTickAt :: "DateString option"
  doc_lastTickSummary :: "LastTickSummary option"
  doc_lastPostAt :: "DateString option"

text \<open>
  The text of the file, by what \<open>JSON.parse\<close> makes of it: an object, \<open>null\<close>, or no
  JSON at all (any other JSON value has none of the keys and reads as an object
  without them). \<open>JSON.stringify\<close> of a state writes the text of the object that has the
  state's arrays and those of its optional fields that are defined, and \<open>JSON.parse\<close>
  reads that object back.
\<close>

datatype FileText = JsonObject MemoryDoc | JsonNull | NotJson

definition JSON_stringify :: "MemoryState \<Rightarrow> FileText" where
  "JSON_stringify st = JsonObject
     \<lparr> doc_lastSeenThreadIds = Some (lastSeenThreadIds st),
       doc_lastSeenCommentIds = Some (lastSeenCommentIds st),
       doc_agentPostIds = Some (agentPostIds st),
       doc_agentCommentIds = Some (agentCommentIds st),
       doc_recentDecisions = Some (recentDecisions st),
       doc_agentId = agentId st,
       doc_claimedAt = claimedAt st,
       doc_firstPostAttempted = firstPostAttempted st,
       doc_recentPostContentHashes = Some (recentPostContentHashes st),
       doc_lastTickAt = lastTickAt st,
       doc_lastTickSummary = lastTickSummary st,
       doc_lastPostAt = lastPostAt st \<rparr>"

datatype JsError = ErrnoException jsstring | SyntaxError | TypeError

text \<open>\<open>(err as NodeJS.ErrnoException)?.code\<close>\<close>

definition errorCode :: "JsError \<Rightarrow> jsstring option" where
  "errorCode e = (case e of ErrnoException c \<Rightarrow> Some c | SyntaxError \<Rightarrow> None | TypeError \<Rightarrow> None)"

text \<open>
  What is at the store's path: nothing, a file with a text, or something that
  \<open>readFile\<close> fails on with another error code (a directory, a file without read
  permission).
\<close>

datatype Disk = NoFile | FileWith FileText | Unreadable jsstring

definition readFile :: "Disk \<Rightarrow> JsError + FileText" where
  "readFile disk =
     (case disk of
        NoFile \<Rightarrow> Inl (ErrnoException (str ''ENOENT''))
      | Unreadable c \<Rightarrow> Inl (ErrnoException c)
      | FileWith t \<Rightarrow> Inr t)"

definition JSON_parse :: "FileText \<Rightarrow> JsError + MemoryDoc option" where
  "JSON_parse t =
     (case t of NotJson \<Rightarrow> Inl SyntaxError | JsonNull \<Rightarrow> Inr None | JsonObject d \<Rightarrow> Inr (Some d))"

definition orElse :: "'a option \<Rightarrow> 'a \<Rightarrow> 'a" where
  "orElse v d = (case v of Some x \<Rightarrow> x | None \<Rightarrow> d)"

definition stateOfDoc :: "MemoryDoc \<Rightarrow> MemoryState" where
  "stateOfDoc d =
     \<lparr> lastSeenThreadIds = orElse (doc_lastSeenThreadIds d) [],
       lastSeenCommentIds = orElse (doc_lastSeenCommentIds d) [],
       agentPostIds = orElse (doc_agentPostIds d) [],
       agentCommentIds = orElse (doc_agentCommentIds d) [],
       recentDecisions = orElse (doc_recentDecisions d) [],
       agentId = doc_agentId d,
       claimedAt = doc_claimedAt d,
       firstPostAttempted = Some (orElse (doc_firstPostAttempted d) False),
       recentPostContentHashes = orElse (doc_recentPostContentHashes d) [],
       lastTickAt = doc_lastTickAt d,
       lastTickSummary = doc_lastTickSummary d,
       lastPostAt = doc_lastPostAt d \<rparr>"

text \<open>The catch clause of \<open>load\<close>: rethrow unless the error's code is ENOENT.\<close>

definition loadCatch :: "JsError \<Rightarrow> MemoryStore \<Rightarrow> JsError + MemoryStore" where
  "loadCatch e m = (if errorCode e \<noteq> Some (str ''ENOENT'') then Inl e else Inr m)"

text \<open>\<open>load\<close>: \<open>Inl\<close> is the error the returned promise rejects with.\<close>

definition load :: "Disk \<Rightarrow> MemoryStore \<Rightarrow> JsError + MemoryStore" where
  "load disk m =
     (case readFile disk of
        Inl e \<Rightarrow> loadCatch e m
      | Inr raw \<Rightarrow>
          (case JSON_parse raw of
             Inl e \<Rightarrow> loadCatch e m
           | Inr None \<Rightarrow> loadCatch TypeError m
           | Inr (Some d) \<Rightarrow> Inr (m\<lparr> state := stateOfDoc d \<rparr>)))"

text \<open>
  \<open>save\<close>: \<open>io\<close> is \<open>None\<close> when \<open>mkdir\<close> and \<open>writeFile\<close> succeed and the error
  when one of them throws. It returns the store and what is at the path afterwards.
\<close>

definition save :: "JsError option \<Rightarrow> MemoryStore \<Rightarrow> Disk \<Rightarrow> JsError + MemoryStore \<times> Disk" where
  "save io m disk =
     (if \<not> dirty m then Inr (m, disk)
      else (case io of
         Some e \<Rightarrow> Inl e
       | None \<Rightarrow> Inr (m\<lparr> dirty := False \<rparr>, FileWith (JSON_stringify (state m)))))"

subsection \<open>Queries and updates\<close>

text \<open>\<open>xs.slice(-n)\<close> for a positive \<open>n\<close>: the last \<open>n\<close> elements, all of them if fewer.\<close>

definition sliceLast :: "nat \<Rightarrow> 'a list \<Rightarrow> 'a list" where
  "sliceLast n xs = drop (length xs - n) xs"

text \<open>
  A line of \<open>recentAgentMemory\<close>, kept as the values its template interpolates:
  \<open>[at] action thread=id | submolt=id-or-? conf=confidence outcome-or-dash\<close>.
\<close>

datatype LineContext = ThreadOf jsstring | SubmoltOf "jsstring option"

record MemoryLine =
  line_at :: DateString
  line_action :: Action
  line_ctx :: LineContext
  line_conf :: number
  line_outcome :: "Outcome option"

definition memoryLine :: "StoredDecision \<Rightarrow> MemoryLine" where
  "memoryLine d =
     \<lparr> line_at = sd_at d,
       line_action = action (sd_decision d),
       line_ctx = (if truthy (scope_threadId (sd_context d))
                   then ThreadOf (the (scope_threadId (sd_context d)))
                   else SubmoltOf (scope_submoltId (sd_context d))),
       line_conf = confidence (sd_decision d),
       line_outcome = sd_outcome d \<rparr>"

record MemoryContext =
  ctx_recentDecisions :: "StoredDecision list"
  ctx_agentPostIds :: "jsstring list"
  ctx_agentCommentIds :: "jsstring list"
  ctx_recentAgentMemory :: "MemoryLine list"

definition getContext :: "MemoryStore \<Rightarrow> MemoryContext" where
  "getContext m =
     (let recent = sliceLast 20 (recentDecisions (state m))
      in \<lparr> ctx_recentDecisions = recent,
           ctx_agentPostIds = agentPostIds (state m),
           ctx_agentCommentIds = agentCommentIds (state m),
           ctx_recentAgentMemory = map memoryLine recent \<rparr>)"

text \<open>\<open>push\<close>, then keep the last \<open>cap\<close> when the list is longer than \<open>cap\<close>.\<close>

definition pushCapped :: "nat \<Rightarrow> 'a \<Rightarrow> 'a list \<Rightarrow> 'a list" where
  "pushCapped cap x xs =
     (let ys = xs @ [x] in if length ys > cap then sliceLast cap ys else ys)"

definition saveDecision ::
  "DateString \<Rightarrow> DecisionScope \<Rightarrow> Decision \<Rightarrow> Outcome option \<Rightarrow> MemoryStore \<Rightarrow> MemoryStore" where
  "saveDecision nowIso scope d out m =
     m\<lparr> state := (state m)\<lparr> recentDecisions :=
            pushCapped MAX_RECENT_DECISIONS
              \<lparr> sd_at = nowIso, sd_context = scope, sd_decision = d, sd_outcome = out \<rparr>
              (recentDecisions (state m)) \<rparr>,
        dirty := True \<rparr>"

definition markThreadSeen :: "jsstring \<Rightarrow> MemoryStore \<Rightarrow> MemoryStore" where
  "markThreadSeen tid m =
     (if tid \<notin> set (lastSeenThreadIds (state m))
      then m\<lparr> state := (state m)\<lparr> lastSeenThreadIds :=
                  pushCapped MAX_LAST_SEEN tid (lastSeenThreadIds (state m)) \<rparr>,
              dirty := True \<rparr>
      else m)"

definition markCommentSeen :: "jsstring \<Rightarrow> MemoryStore \<Rightarrow> MemoryStore" where
  "markCommentSeen cid m =
     (if cid \<notin> set (lastSeenCommentIds (state m))
      then m\<lparr> state := (state m)\<lparr> lastSeenCommentIds :=
                  pushCapped MAX_LAST_SEEN cid (lastSeenCommentIds (state m)) \<rparr>,
              dirty := True \<rparr>
      else m)"

definition isThreadSeen :: "jsstring \<Rightarrow> MemoryStore \<Rightarrow> bool" where
  "isThreadSeen tid m = (tid \<in> set (lastSeenThreadIds (state m)))"

definition isCommentSeen :: "jsstring \<Rightarrow> MemoryStore \<Rightarrow> bool" where
  "isCommentSeen cid m = (cid \<in> set (lastSeenCommentIds (state m)))"

definition addAgentPostId :: "jsstring \<Rightarrow> MemoryStore \<Rightarrow> MemoryStore" where
  "addAgentPostId pid m =
     m\<lparr> state := (state m)\<lparr> agentPostIds := pushCapped MAX_AGENT_IDS pid (agentPostIds (state m)) \<rparr>,
        dirty := True \<rparr>"

definition addAgentCommentId :: "jsstring \<Rightarrow> MemoryStore \<Rightarrow> MemoryStore" where
  "addAgentCommentId cid m =
     m\<lparr> state := (state m)\<lparr> agentCommentIds :=
            pushCapped MAX_AGENT_IDS cid (agentCommentIds (state m)) \<rparr>,
        dirty := True \<rparr>"

definition setAgentId :: "DateString \<Rightarrow> jsstring \<Rightarrow> MemoryStore \<Rightarrow> MemoryStore" where
  "setAgentId nowIso aid m =
     m\<lparr> state := (state m)\<lparr> agentId := Some aid, claimedAt := Some nowIso \<rparr>, dirty := True \<rparr>"

definition getAgentId :: "MemoryStore \<Rightarrow> jsstring option" where
  "getAgentId m = agentId (state m)"

definition isClaimed :: "MemoryStore \<Rightarrow> bool" where
  "isClaimed m = truthy (agentId (state m))"

text \<open>\<open>contentHash\<close>: both parts normalised, joined by a line feed, then hashed.\<close>

definition contentHash :: "(jsstring \<Rightarrow> jsstring) \<Rightarrow> jsstring \<Rightarrow> jsstring \<Rightarrow> jsstring" where
  "contentHash lc t c = rollingHash (normalize lc t @ [10] @ normalize lc c)"

definition addAgentPostContent ::
  "(jsstring \<Rightarrow> jsstring) \<Rightarrow> jsstring \<Rightarrow> jsstring \<Rightarrow> MemoryStore \<Rightarrow> MemoryStore" where
  "addAgentPostContent lc t c m =
     m\<lparr> state := (state m)\<lparr> recentPostContentHashes :=
            pushCapped MAX_RECENT_POST_HASHES (contentHash lc t c)
              (recentPostContentHashes (state m)) \<rparr>,
        dirty := True \<rparr>"

definition isDuplicatePost ::
  "(jsstring \<Rightarrow> jsstring) \<Rightarrow> jsstring \<Rightarrow> jsstring \<Rightarrow> MemoryStore \<Rightarrow> bool" where
  "isDuplicatePost lc t c m = (contentHash lc t c \<in> set (recentPostContentHashes (state m)))"

definition getLastPostAt :: "MemoryStore \<Rightarrow> DateString option" where
  "getLastPostAt m = lastPostAt (state m)"

definition setLastPostAt :: "DateString \<Rightarrow> MemoryStore \<Rightarrow> MemoryStore" where
  "setLastPostAt stamp m = m\<lparr> state := (state m)\<lparr> lastPostAt := Some stamp \<rparr>, dirty := True \<rparr>"

text \<open>A sequence of mark-as-seen calls on one store, applied in order.\<close>

datatype SeenCall = MarkThread jsstring | MarkComment jsstring

fun seenCall :: "SeenCall \<Rightarrow> MemoryStore \<Rightarrow> MemoryStore" where
  "seenCall (MarkThread tid) m = markThreadSeen tid m"
| "seenCall (MarkComment cid) m = markCommentSeen cid m"

fun seenCalls :: "SeenCall list \<Rightarrow> MemoryStore \<Rightarrow> MemoryStore" where
  "seenCalls [] m = m"
| "seenCalls (c # cs) m = seenCalls cs (seenCall c m)"

text \<open>
  A store whose two seen-lists are full: 500 distinct ids (the strings of 0 to 499
  letters a).
\<close>

definition fullSeenList :: "jsstring list" where
  "fullSeenList = map (\<lambda>n. replicate n 97) [0..<500]"

definition fullSeenStore :: MemoryStore where
  "fullSeenStore = \<lparr> state = emptyState\<lparr> lastSeenThreadIds := fullSeenList,
     lastSeenCommentIds := fullSeenList \<rparr>, dirty = False \<rparr>"

text \<open>A sequence of \<open>recordAction("post", ctx)\<close> calls, each at its own clock reading.\<close>

fun recordPosts ::
  "(jsstring \<Rightarrow> jsstring) \<Rightarrow> (int \<times> RecordContext) list \<Rightarrow> PolicyState \<Rightarrow> PolicyState" where
  "recordPosts lc [] s = s"
| "recordPosts lc (r # rs) s = recordPosts lc rs (recordAction lc (fst r) RecPost (snd r) s)"

text \<open>A sequence of \<open>recordAction("comment", ctx)\<close> calls.\<close>

fun recordComments ::
  "(jsstring \<Rightarrow> jsstring) \<Rightarrow> (int \<times> RecordContext) list \<Rightarrow> PolicyState \<Rightarrow> PolicyState" where
  "recordComments lc [] s = s"
| "recordComments lc (r # rs) s = recordComments lc rs (recordAction lc (fst r) RecComment (snd r) s)"

subsection \<open>Texts that differ only in case and white space\<close>

text \<open>
  The words of a text: its maximal runs of code units that are not white space, in
  order. This definition follows the wording of the specification, not the code: two
  texts differ only in case and white space when, lower-cased, they have the same
  words.
\<close>

fun wordsFrom :: "jsstring \<Rightarrow> jsstring \<Rightarrow> jsstring list" where
  "wordsFrom w [] = (if w = [] then [] else [w])"
| "wordsFrom w (c # cs) =
     (if isWhiteSpace c then (if w = [] then wordsFrom [] cs else w # wordsFrom [] cs)
      else wordsFrom (w @ [c]) cs)"

definition wordsOf :: "jsstring \<Rightarrow> jsstring list" where
  "wordsOf s = wordsFrom [] s"

definition sameUpToCaseAndWhiteSpace :: "(jsstring \<Rightarrow> jsstring) \<Rightarrow> jsstring \<Rightarrow> jsstring \<Rightarrow> bool" where
  "sameUpToCaseAndWhiteSpace lc a b = (wordsOf (lc a) = wordsOf (lc b))"

text \<open>The words of a text joined by single spaces.\<close>

definition joinWords :: "jsstring list \<Rightarrow> jsstring" where
  "joinWords ws = (case ws of [] \<Rightarrow> [] | w # rest \<Rightarrow> w @ concat (map (\<lambda>v. 32 # v) rest))"

section \<open>The scheduler (scheduler/loop.ts)\<close>

record SchedulerConfig =
  tickIntervalMinutes :: number
  postIntervalMinutes :: number
  dryRun :: bool
  usePersonalizedFeed :: "bool option"

subsection \<open>The decision pipeline\<close>

text \<open>
  The platform calls of \<open>decideAndExecute\<close> that returned, and the calls it made of
  \<open>policy.recordAction\<close>, are logged in order beside the policy engine and the memory
  store it works on. The two logs are observations of the run, not fields of the
  program.
\<close>

datatype TargetType = PostTarget | CommentTarget

datatype PlatformCall =
    PostPost jsstring jsstring jsstring
  | PostComment jsstring jsstring
  | VoteCall jsstring VoteDirection TargetType

record Deps =
  policy :: PolicyState
  memory :: MemoryStore
  executed :: "PlatformCall list"
  recorded :: "(RecordedAction \<times> RecordContext) list"

text \<open>
  What the surroundings give one run of \<open>decideAndExecute\<close>: the model's answer (\<open>decided\<close>;
   \<open>None\<close> when \<open>llm.decideAction\<close> throws), the outcome of the one platform call the run
  may make (\<open>None\<close> when it throws, else the id of the object it returns; a vote returns
  nothing and the id is unused), and the readings of the clock at \<open>validate\<close>, at the
  rate-limit gate, at \<open>setLastPostAt\<close> and at \<open>recordAction\<close>.
\<close>

record Surroundings =
  decided :: "Decision option"
  platform :: "jsstring option"
  atValidate :: int
  atRateGate :: int
  atLastPost :: int
  atRecord :: int

text \<open>\<open>decision.title ?? (decision.content.slice(0, 80) || "Post")\<close>\<close>

definition postTitle :: "Decision \<Rightarrow> jsstring" where
  "postTitle d =
     (case title d of
        Some t \<Rightarrow> t
      | None \<Rightarrow> (let head = take 80 (the (content d)) in if head = [] then str ''Post'' else head))"

text \<open>
  The rate-limit gate: \<open>lastPostAt\<close> is set and less than \<open>postIntervalMinutes\<close> have
  passed since. A string that is no date gives NaN, and the comparison is false. The
  product is exact for a whole number of minutes (see the note on numbers above).
\<close>

definition postRateLimited :: "SchedulerConfig \<Rightarrow> int \<Rightarrow> MemoryStore \<Rightarrow> bool" where
  "postRateLimited conf now m =
     (case getLastPostAt m of
        Some (IsoDate t) \<Rightarrow> of_int (now - t) < postIntervalMinutes conf * 60 * 1000
      | Some InvalidDate \<Rightarrow> False
      | None \<Rightarrow> False)"

text \<open>The three branches of the \<open>try\<close> block, each after its platform call has returned.\<close>

definition executePost :: "(jsstring \<Rightarrow> jsstring) \<Rightarrow> Surroundings \<Rightarrow> jsstring \<Rightarrow> Decision \<Rightarrow> jsstring \<Rightarrow> Deps \<Rightarrow> Deps" where
  "executePost lc env submoltName d pid deps =
     (let t = postTitle d;
          c = the (content d);
          rc = \<lparr> rec_submoltId = Some submoltName, rec_threadId = None, rec_content = Some c \<rparr>
      in deps\<lparr> memory := setLastPostAt (IsoDate (atLastPost env))
                   (addAgentPostContent lc t c (addAgentPostId pid (memory deps))),
               policy := recordAction lc (atRecord env) RecPost rc (policy deps),
               executed := executed deps @ [PostPost submoltName t c],
               recorded := recorded deps @ [(RecPost, rc)] \<rparr>)"

definition executeComment :: "(jsstring \<Rightarrow> jsstring) \<Rightarrow> Surroundings \<Rightarrow> jsstring \<Rightarrow> Decision \<Rightarrow> jsstring \<Rightarrow> Deps \<Rightarrow> Deps" where
  "executeComment lc env postId d cid deps =
     (let targetPostId = orElse (targetId d) postId;
          c = the (content d);
          rc = \<lparr> rec_submoltId = None, rec_threadId = Some targetPostId, rec_content = Some c \<rparr>
      in deps\<lparr> memory := addAgentCommentId cid (memory deps),
               policy := recordAction lc (atRecord env) RecComment rc (policy deps),
               executed := executed deps @ [PostComment targetPostId c],
               recorded := recorded deps @ [(RecComment, rc)] \<rparr>)"

definition executeVote :: "jsstring \<Rightarrow> Decision \<Rightarrow> Deps \<Rightarrow> Deps" where
  "executeVote postId d deps =
     (let target = the (targetId d);
          targetType = (if target = postId then PostTarget else CommentTarget)
      in deps\<lparr> executed := executed deps @ [VoteCall target (the (voteDirection d)) targetType] \<rparr>)"

text \<open>
  \<open>decideAndExecute(context, postId, submoltName, commentId)\<close>: \<open>None\<close> is the \<open>null\<close> it
  returns when the model fails, else the decision and its outcome. \<open>context\<close> only
  goes into the model's prompt and \<open>commentId\<close> is unused (\<open>void commentId\<close>), so
  neither is a parameter here; the log lines are left out.
\<close>

definition decideAndExecute ::
  "(jsstring \<Rightarrow> jsstring) \<Rightarrow> PolicyConfig \<Rightarrow> SchedulerConfig \<Rightarrow> Surroundings \<Rightarrow> jsstring \<Rightarrow> jsstring
     \<Rightarrow> Deps \<Rightarrow> (Decision \<times> Outcome) option \<times> Deps" where
  "decideAndExecute lc pcfg conf env postId submoltName deps =
     (case decided env of
        None \<Rightarrow> (None, deps)
      | Some d \<Rightarrow>
          let ctx = \<lparr> submoltId = Some submoltName, threadId = Some postId, actionSource = action d \<rparr>;
              checked = validate lc pcfg (atValidate env) d ctx (policy deps);
              deps1 = deps\<lparr> policy := snd checked \<rparr>
          in
          if fst checked \<noteq> Allowed then (Some (d, Blocked), deps1)
          else if action d = Post \<and> truthy (content d) \<and>
                  isDuplicatePost lc (postTitle d) (the (content d)) (memory deps1)
          then (Some (d, Blocked), deps1)
          else if action d = Post \<and> truthy (content d) \<and>
                  postRateLimited conf (atRateGate env) (memory deps1)
          then (Some (d, Blocked), deps1)
          else if action d = Ignore then (Some (d, Skipped), deps1)
          else if dryRun conf then (Some (d, Skipped), deps1)
          else if action d = Post \<and> truthy (content d) then
            (case platform env of
               None \<Rightarrow> (Some (d, Blocked), deps1)
             | Some pid \<Rightarrow> (Some (d, Executed), executePost lc env submoltName d pid deps1))
          else if action d = Comment \<and> truthy (content d) then
            (case platform env of
               None \<Rightarrow> (Some (d, Blocked), deps1)
             | Some cid \<Rightarrow> (Some (d, Executed), executeComment lc env postId d cid deps1))
          else if action d = Vote \<and> truthy (targetId d) \<and> voteDirection d \<noteq> None then
            (case platform env of
               None \<Rightarrow> (Some (d, Blocked), deps1)
             | Some r \<Rightarrow> (Some (d, Executed), executeVote postId d deps1))
          else (Some (d, Executed), deps1))"

subsection \<open>Starting, stopping and the interval timer\<close>

text \<open>
  The fields of \<open>Scheduler\<close>, and beside them the number of tick bodies in flight: the
  invocations of \<open>tick()\<close> that have passed its \<open>running\<close> guard and have not returned
  yet. A tick body suspends at its first \<open>await\<close> (\<open>memory.load()\<close>) and at every later
  one, and the event loop runs timer callbacks in between.
\<close>

record Scheduler =
  intervalId :: "nat option"
  timeoutId :: "nat option"
  running :: bool
  ticksInFlight :: nat

definition newScheduler :: Scheduler where
  "newScheduler = \<lparr> intervalId = None, timeoutId = None, running = False, ticksInFlight = 0 \<rparr>"

text \<open>An invocation of \<open>tick()\<close>: \<open>if (!this.running) return;\<close>, then the body begins.\<close>

definition tickInvoked :: "Scheduler \<Rightarrow> Scheduler" where
  "tickInvoked s = (if \<not> running s then s else s\<lparr> ticksInFlight := ticksInFlight s + 1 \<rparr>)"

definition start :: "Scheduler \<Rightarrow> Scheduler" where
  "start s =
     (if intervalId s \<noteq> None then s
      else (tickInvoked (s\<lparr> running := True \<rparr>))\<lparr> intervalId := Some 1 \<rparr>)"

definition stop :: "Scheduler \<Rightarrow> Scheduler" where
  "stop s = s\<lparr> timeoutId := None, intervalId := None, running := False \<rparr>"

text \<open>
  What can happen to a scheduler: a call of \<open>start()\<close> or \<open>stop()\<close>, the interval timer
  firing (only while one is registered), and a tick body in flight running to its end.
\<close>

datatype Event = Start | Stop | TimerFires | TickSettles

fun step :: "Event \<Rightarrow> Scheduler \<Rightarrow> Scheduler" where
  "step Start s = start s"
| "step Stop s = stop s"
| "step TimerFires s = (if intervalId s = None then s else tickInvoked s)"
| "step TickSettles s =
     (if ticksInFlight s = 0 then s else s\<lparr> ticksInFlight := ticksInFlight s - 1 \<rparr>)"

fun run :: "Event list \<Rightarrow> Scheduler \<Rightarrow> Scheduler" where
  "run [] s = s"
| "run (e # es) s = run es (step e s)"

section \<open>The decision schema (types/decision.ts)\<close>

text \<open>
  The value \<open>JSON.parse\<close> makes of the model's reply. An object is the list of its
  properties, each key once; \<open>obj[key]\<close> is \<open>None\<close> for a key that is missing
  (\<open>undefined\<close>).
\<close>

datatype Json =
    JNull
  | JBool bool
  | JNumber number
  | JString jsstring
  | JArray "Json list"
  | JObject "(jsstring \<times> Json) list"

definition property :: "(jsstring \<times> Json) list \<Rightarrow> string \<Rightarrow> Json option" where
  "property props k = map_of props (str k)"

text \<open>
  The field schemas of \<open>DecisionSchema\<close>, as zod parses them; \<open>None\<close> is an issue.
  \<open>z.enum([...])\<close> takes one of its strings, \<open>z.string().optional()\<close> takes a string or
  \<open>undefined\<close> (not null), \<open>z.number().min(0).max(1)\<close> takes a number from 0 to 1.
\<close>

definition parseAction :: "Json option \<Rightarrow> Action option" where
  "parseAction v =
     (case v of
        Some (JString s) \<Rightarrow>
          if s = str ''post'' then Some Post
          else if s = str ''comment'' then Some Comment
          else if s = str ''vote'' then Some Vote
          else if s = str ''ignore'' then Some Ignore
          else None
      | _ \<Rightarrow> None)"

definition parseOptionalString :: "Json option \<Rightarrow> jsstring option option" where
  "parseOptionalString v =
     (case v of None \<Rightarrow> Some None | Some (JString s) \<Rightarrow> Some (Some s) | _ \<Rightarrow> None)"

definition parseOptionalDirection :: "Json option \<Rightarrow> VoteDirection option option" where
  "parseOptionalDirection v =
     (case v of
        None \<Rightarrow> Some None
      | Some (JString s) \<Rightarrow>
          if s = str ''up'' then Some (Some Up)
          else if s = str ''down'' then Some (Some Down)
          else None
      | _ \<Rightarrow> None)"

definition parseConfidence :: "Json option \<Rightarrow> number option" where
  "parseConfidence v =
     (case v of
        Some (JNumber x) \<Rightarrow> if 0 \<le> x \<and> x \<le> 1 then Some x else None
      | _ \<Rightarrow> None)"

text \<open>
  \<open>DecisionSchema.safeParse(parsed)\<close>: the decision when no field has an issue (keys
  the schema does not name are dropped), \<open>None\<close> when the value is no object or a field
  has an issue.
\<close>

definition DecisionSchema_safeParse :: "Json \<Rightarrow> Decision option" where
  "DecisionSchema_safeParse j =
     (case j of
        JObject props \<Rightarrow>
          (case (parseAction (property props ''action''),
                 parseOptionalString (property props ''targetId''),
                 parseOptionalString (property props ''title''),
                 parseOptionalString (property props ''content''),
                 parseOptionalDirection (property props ''voteDirection''),
                 parseConfidence (property props ''confidence'')) of
             (Some a, Some tid, Some ti, Some c, Some v, Some conf) \<Rightarrow>
               Some \<lparr> action = a, targetId = tid, title = ti, content = c, voteDirection = v,
                      confidence = conf \<rparr>
           | _ \<Rightarrow> None)
      | _ \<Rightarrow> None)"

definition actionName :: "Action \<Rightarrow> jsstring" where
  "actionName a =
     (case a of Post \<Rightarrow> str ''post'' | Comment \<Rightarrow> str ''comment'' | Vote \<Rightarrow> str ''vote''
      | Ignore \<Rightarrow> str ''ignore'')"

section \<open>The confidence gate\<close>

text \<open>
  C1. A decision whose action is not ignore and whose confidence is below the
  configured threshold is rejected with the reason "confidence below threshold",
  whatever its other fields, the context, the clock and the engine's counters are (no
  other rule is consulted and the counters are left as they were); with the default
  configuration the threshold is 0.6. A decision whose action is ignore is allowed, also
  below the threshold.
\<close>

theorem validate_confidence_gate:
  "(action d \<noteq> Ignore \<and> confidence d < confidenceThreshold cfg \<longrightarrow>
      validate lc cfg now d ctx s = (Rejected ''confidence below threshold'', s)) \<and>
   (action d = Ignore \<longrightarrow> validate lc cfg now d ctx s = (Allowed, s)) \<and>
   confidenceThreshold DEFAULT_CONFIG = 6 / 10"
  by (simp add: validate_def DEFAULT_CONFIG_def)

theorem validate_confidence_gate_witness:
  "validate asciiLowerCase DEFAULT_CONFIG 1000
     \<lparr> action = Post, targetId = None, title = Some (str ''T''), content = Some (str ''hello''),
       voteDirection = None, confidence = 1 / 2 \<rparr>
     \<lparr> submoltId = Some (str ''general''), threadId = None, actionSource = Post \<rparr> newPolicyEngine
     = (Rejected ''confidence below threshold'', newPolicyEngine) \<and>
   validate asciiLowerCase DEFAULT_CONFIG 1000
     \<lparr> action = Ignore, targetId = None, title = None, content = None,
       voteDirection = None, confidence = 0 \<rparr>
     \<lparr> submoltId = None, threadId = None, actionSource = Ignore \<rparr> newPolicyEngine
     = (Allowed, newPolicyEngine)"
  using
    validate_confidence_gate [of
      "\<lparr> action = Post, targetId = None, title = Some (str ''T''), content = Some (str ''hello''),
         voteDirection = None, confidence = 1 / 2 \<rparr>" DEFAULT_CONFIG]
    validate_confidence_gate [of
      "\<lparr> action = Ignore, targetId = None, title = None, content = None,
         voteDirection = None, confidence = 0 \<rparr>" DEFAULT_CONFIG]
  by (simp add: DEFAULT_CONFIG_def)

section \<open>The seen-lists\<close>

lemma length_pushCapped: "length (pushCapped cap x xs) = min cap (length xs + 1)"
  by (auto simp: pushCapped_def sliceLast_def Let_def)

lemma pushCapped_sliceLast: "pushCapped cap x xs = sliceLast cap (xs @ [x])"
  by (simp add: pushCapped_def sliceLast_def Let_def)

lemma pushCapped_full: "length xs = cap \<Longrightarrow> 0 < cap \<Longrightarrow> pushCapped cap x xs = tl xs @ [x]"
  by (cases xs) (simp_all add: pushCapped_def sliceLast_def Let_def)

lemma pushCapped_room: "length xs < cap \<Longrightarrow> pushCapped cap x xs = xs @ [x]"
  by (simp add: pushCapped_def Let_def)

lemma last_pushCapped: "0 < cap \<Longrightarrow> last (pushCapped cap x xs) = x"
  by (simp add: pushCapped_def sliceLast_def Let_def last_drop)

lemma set_sliceLast: "set (sliceLast n xs) \<subseteq> set xs"
  by (simp add: sliceLast_def set_drop_subset)

lemma distinct_pushCapped: "distinct xs \<Longrightarrow> x \<notin> set xs \<Longrightarrow> distinct (pushCapped cap x xs)"
proof -
  assume "distinct xs" "x \<notin> set xs"
  then have "distinct (xs @ [x])" by simp
  then have "distinct (drop (length (xs @ [x]) - cap) (xs @ [x]))" by (rule distinct_drop)
  then show ?thesis by (simp only: pushCapped_sliceLast sliceLast_def)
qed

lemma threads_markThreadSeen:
  "lastSeenThreadIds (state (markThreadSeen tid m)) =
     (if tid \<in> set (lastSeenThreadIds (state m)) then lastSeenThreadIds (state m)
      else pushCapped MAX_LAST_SEEN tid (lastSeenThreadIds (state m)))"
  by (simp add: markThreadSeen_def)

lemma comments_markThreadSeen:
  "lastSeenCommentIds (state (markThreadSeen tid m)) = lastSeenCommentIds (state m)"
  by (simp add: markThreadSeen_def)

lemma comments_markCommentSeen:
  "lastSeenCommentIds (state (markCommentSeen cid m)) =
     (if cid \<in> set (lastSeenCommentIds (state m)) then lastSeenCommentIds (state m)
      else pushCapped MAX_LAST_SEEN cid (lastSeenCommentIds (state m)))"
  by (simp add: markCommentSeen_def)

lemma threads_markCommentSeen:
  "lastSeenThreadIds (state (markCommentSeen cid m)) = lastSeenThreadIds (state m)"
  by (simp add: markCommentSeen_def)

lemma seenCall_threads_bound:
  "length (lastSeenThreadIds (state m)) \<le> MAX_LAST_SEEN \<Longrightarrow>
   length (lastSeenThreadIds (state (seenCall c m))) \<le> MAX_LAST_SEEN"
  by (cases c) (simp_all add: threads_markThreadSeen threads_markCommentSeen length_pushCapped)

lemma seenCall_comments_bound:
  "length (lastSeenCommentIds (state m)) \<le> MAX_LAST_SEEN \<Longrightarrow>
   length (lastSeenCommentIds (state (seenCall c m))) \<le> MAX_LAST_SEEN"
  by (cases c) (simp_all add: comments_markThreadSeen comments_markCommentSeen length_pushCapped)

lemma seenCalls_threads_bound:
  "length (lastSeenThreadIds (state m)) \<le> MAX_LAST_SEEN \<Longrightarrow>
   length (lastSeenThreadIds (state (seenCalls cs m))) \<le> MAX_LAST_SEEN"
proof (induction cs arbitrary: m)
  case Nil
  then show ?case by simp
next
  case (Cons c cs)
  from Cons.prems have "length (lastSeenThreadIds (state (seenCall c m))) \<le> MAX_LAST_SEEN"
    by (rule seenCall_threads_bound)
  then show ?case by (simp add: Cons.IH)
qed

lemma seenCalls_comments_bound:
  "length (lastSeenCommentIds (state m)) \<le> MAX_LAST_SEEN \<Longrightarrow>
   length (lastSeenCommentIds (state (seenCalls cs m))) \<le> MAX_LAST_SEEN"
proof (induction cs arbitrary: m)
  case Nil
  then show ?case by simp
next
  case (Cons c cs)
  from Cons.prems have "length (lastSeenCommentIds (state (seenCall c m))) \<le> MAX_LAST_SEEN"
    by (rule seenCall_comments_bound)
  then show ?case by (simp add: Cons.IH)
qed

lemma seenCall_distinct:
  "distinct (lastSeenThreadIds (state m)) \<and> distinct (lastSeenCommentIds (state m)) \<Longrightarrow>
   distinct (lastSeenThreadIds (state (seenCall c m))) \<and>
   distinct (lastSeenCommentIds (state (seenCall c m)))"
  by (cases c)
    (simp_all add: threads_markThreadSeen threads_markCommentSeen comments_markThreadSeen
      comments_markCommentSeen distinct_pushCapped)

lemma seenCalls_distinct:
  "distinct (lastSeenThreadIds (state m)) \<and> distinct (lastSeenCommentIds (state m)) \<Longrightarrow>
   distinct (lastSeenThreadIds (state (seenCalls cs m))) \<and>
   distinct (lastSeenCommentIds (state (seenCalls cs m)))"
proof (induction cs arbitrary: m)
  case Nil
  then show ?case by simp
next
  case (Cons c cs)
  have "distinct (lastSeenThreadIds (state (seenCall c m))) \<and>
        distinct (lastSeenCommentIds (state (seenCall c m)))"
    using Cons.prems by (rule seenCall_distinct)
  then show ?case using Cons.IH by simp
qed

text \<open>
  C5. From a freshly constructed store, and from any store whose seen-lists are within
  the cap, no sequence of markThreadSeen and markCommentSeen calls takes either list
  beyond \<open>MAX_LAST_SEEN\<close> = 500 entries, and the lists stay free of duplicates. Marking
  an id that is not yet in the list leaves the last 500 entries of the old list followed by
  the new id, so the new id is kept and the entries dropped are those at the front, the
  oldest; on a list that holds exactly 500 ids that is the old list without its first entry,
  followed by the new id. Marking an id that is already in the list leaves the whole
  store as it was.
\<close>

theorem seen_lists_capped:
  "MAX_LAST_SEEN = 500 \<and>
   length (lastSeenThreadIds (state (seenCalls cs newMemoryStore))) \<le> MAX_LAST_SEEN \<and>
   length (lastSeenCommentIds (state (seenCalls cs newMemoryStore))) \<le> MAX_LAST_SEEN \<and>
   distinct (lastSeenThreadIds (state (seenCalls cs newMemoryStore))) \<and>
   distinct (lastSeenCommentIds (state (seenCalls cs newMemoryStore))) \<and>
   (length (lastSeenThreadIds (state m)) \<le> MAX_LAST_SEEN \<longrightarrow>
      length (lastSeenThreadIds (state (seenCalls cs m))) \<le> MAX_LAST_SEEN) \<and>
   (length (lastSeenCommentIds (state m)) \<le> MAX_LAST_SEEN \<longrightarrow>
      length (lastSeenCommentIds (state (seenCalls cs m))) \<le> MAX_LAST_SEEN) \<and>
   (x \<notin> set (lastSeenThreadIds (state m)) \<longrightarrow>
      lastSeenThreadIds (state (markThreadSeen x m)) =
        sliceLast MAX_LAST_SEEN (lastSeenThreadIds (state m) @ [x]) \<and>
      last (lastSeenThreadIds (state (markThreadSeen x m))) = x) \<and>
   (x \<notin> set (lastSeenCommentIds (state m)) \<longrightarrow>
      lastSeenCommentIds (state (markCommentSeen x m)) =
        sliceLast MAX_LAST_SEEN (lastSeenCommentIds (state m) @ [x]) \<and>
      last (lastSeenCommentIds (state (markCommentSeen x m))) = x) \<and>
   (x \<notin> set (lastSeenThreadIds (state m)) \<and> length (lastSeenThreadIds (state m)) = MAX_LAST_SEEN \<longrightarrow>
      lastSeenThreadIds (state (markThreadSeen x m)) = tl (lastSeenThreadIds (state m)) @ [x]) \<and>
   (x \<notin> set (lastSeenCommentIds (state m)) \<and> length (lastSeenCommentIds (state m)) = MAX_LAST_SEEN \<longrightarrow>
      lastSeenCommentIds (state (markCommentSeen x m)) = tl (lastSeenCommentIds (state m)) @ [x]) \<and>
   (x \<in> set (lastSeenThreadIds (state m)) \<longrightarrow> markThreadSeen x m = m) \<and>
   (x \<in> set (lastSeenCommentIds (state m)) \<longrightarrow> markCommentSeen x m = m)"
proof -
  have cap: "MAX_LAST_SEEN = 500" "0 < MAX_LAST_SEEN"
    by (simp_all add: MAX_LAST_SEEN_def)
  have new: "length (lastSeenThreadIds (state newMemoryStore)) \<le> MAX_LAST_SEEN"
    "length (lastSeenCommentIds (state newMemoryStore)) \<le> MAX_LAST_SEEN"
    "distinct (lastSeenThreadIds (state newMemoryStore)) \<and>
     distinct (lastSeenCommentIds (state newMemoryStore))"
    by (simp_all add: newMemoryStore_def emptyState_def)
  note fresh = seenCalls_threads_bound [OF new(1), of cs] seenCalls_comments_bound [OF new(2), of cs]
    seenCalls_distinct [OF new(3), of cs]
  have thr: "x \<notin> set (lastSeenThreadIds (state m)) \<longrightarrow>
      lastSeenThreadIds (state (markThreadSeen x m)) =
        sliceLast MAX_LAST_SEEN (lastSeenThreadIds (state m) @ [x]) \<and>
      last (lastSeenThreadIds (state (markThreadSeen x m))) = x"
    using cap(2) by (simp add: threads_markThreadSeen last_pushCapped pushCapped_sliceLast [symmetric])
  have com: "x \<notin> set (lastSeenCommentIds (state m)) \<longrightarrow>
      lastSeenCommentIds (state (markCommentSeen x m)) =
        sliceLast MAX_LAST_SEEN (lastSeenCommentIds (state m) @ [x]) \<and>
      last (lastSeenCommentIds (state (markCommentSeen x m))) = x"
    using cap(2) by (simp add: comments_markCommentSeen last_pushCapped pushCapped_sliceLast [symmetric])
  have thr_full: "x \<notin> set (lastSeenThreadIds (state m)) \<and>
      length (lastSeenThreadIds (state m)) = MAX_LAST_SEEN \<longrightarrow>
      lastSeenThreadIds (state (markThreadSeen x m)) = tl (lastSeenThreadIds (state m)) @ [x]"
    using cap(2) by (simp add: threads_markThreadSeen pushCapped_full)
  have com_full: "x \<notin> set (lastSeenCommentIds (state m)) \<and>
      length (lastSeenCommentIds (state m)) = MAX_LAST_SEEN \<longrightarrow>
      lastSeenCommentIds (state (markCommentSeen x m)) = tl (lastSeenCommentIds (state m)) @ [x]"
    using cap(2) by (simp add: comments_markCommentSeen pushCapped_full)
  have same: "x \<in> set (lastSeenThreadIds (state m)) \<longrightarrow> markThreadSeen x m = m"
    "x \<in> set (lastSeenCommentIds (state m)) \<longrightarrow> markCommentSeen x m = m"
    by (simp_all add: markThreadSeen_def markCommentSeen_def)
  show ?thesis
    using cap(1) fresh thr com thr_full com_full same
      seenCalls_threads_bound [of m cs] seenCalls_comments_bound [of m cs]
    by blast
qed

theorem seen_lists_capped_witness:
  "length (lastSeenThreadIds (state (seenCalls
      [MarkThread (str ''t1''), MarkComment (str ''c1''), MarkThread (str ''t1'')] fullSeenStore)))
     \<le> MAX_LAST_SEEN \<and>
   length (lastSeenCommentIds (state (seenCalls
      [MarkThread (str ''t1''), MarkComment (str ''c1''), MarkThread (str ''t1'')] fullSeenStore)))
     \<le> MAX_LAST_SEEN \<and>
   lastSeenThreadIds (state (markThreadSeen (replicate 500 97) fullSeenStore)) =
     tl fullSeenList @ [replicate 500 97] \<and>
   lastSeenCommentIds (state (markCommentSeen (replicate 500 97) fullSeenStore)) =
     tl fullSeenList @ [replicate 500 97] \<and>
   last (lastSeenThreadIds (state (markThreadSeen (replicate 500 97) fullSeenStore))) =
     replicate 500 97 \<and>
   markThreadSeen [] fullSeenStore = fullSeenStore \<and>
   markCommentSeen [] fullSeenStore = fullSeenStore"
proof -
  have st: "lastSeenThreadIds (state fullSeenStore) = fullSeenList"
    "lastSeenCommentIds (state fullSeenStore) = fullSeenList"
    by (simp_all add: fullSeenStore_def)
  have len: "length fullSeenList = MAX_LAST_SEEN"
    by (simp add: fullSeenList_def MAX_LAST_SEEN_def)
  have new: "replicate 500 97 \<notin> set fullSeenList"
  proof
    assume "replicate 500 97 \<in> set fullSeenList"
    then obtain n where "n < 500" and "replicate 500 (97 :: 16 word) = replicate n 97"
      by (auto simp: fullSeenList_def)
    then have "length (replicate 500 (97 :: 16 word)) = length (replicate n (97 :: 16 word))"
      by simp
    with \<open>n < 500\<close> show False by simp
  qed
  have "replicate 0 97 \<in> set fullSeenList"
    unfolding fullSeenList_def by (simp only: set_map) (rule imageI, simp)
  then have old: "[] \<in> set fullSeenList"
    by simp
  note run = seen_lists_capped [of "[MarkThread (str ''t1''), MarkComment (str ''c1''), MarkThread (str ''t1'')]"
      fullSeenStore "replicate 500 97", unfolded st]
  note again = seen_lists_capped [of "[]" fullSeenStore "[]", unfolded st]
  from len have le: "length fullSeenList \<le> MAX_LAST_SEEN"
    by simp
  show ?thesis
    using run again len le new old by blast
qed

section \<open>Loading and saving the memory file\<close>

lemma load_absent: "load NoFile m = Inr m"
  by (simp add: load_def readFile_def loadCatch_def errorCode_def)

lemma load_unreadable:
  "load (Unreadable c) m = (if c = str ''ENOENT'' then Inr m else Inl (ErrnoException c))"
  by (simp add: load_def readFile_def loadCatch_def errorCode_def)

lemma load_malformed: "load (FileWith NotJson) m = Inl SyntaxError"
  by (simp add: load_def readFile_def JSON_parse_def loadCatch_def errorCode_def)

lemma load_null: "load (FileWith JsonNull) m = Inl TypeError"
  by (simp add: load_def readFile_def JSON_parse_def loadCatch_def errorCode_def)

lemma load_object: "load (FileWith (JsonObject d)) m = Inr (m\<lparr> state := stateOfDoc d \<rparr>)"
  by (simp add: load_def readFile_def JSON_parse_def)

lemma getContext_new:
  "getContext newMemoryStore =
     \<lparr> ctx_recentDecisions = [], ctx_agentPostIds = [], ctx_agentCommentIds = [],
       ctx_recentAgentMemory = [] \<rparr>"
  by (simp add: getContext_def newMemoryStore_def emptyState_def sliceLast_def)

lemma not_claimed_new: "\<not> isClaimed newMemoryStore"
  by (simp add: isClaimed_def newMemoryStore_def emptyState_def truthy_def)

text \<open>
  C6, as the claim states it, fails: \<open>load\<close> on an absent file does not yield the
  default empty state, it leaves the store's state as it was. On a store whose agent id
  has been set (as \<open>claimAgent\<close> does before the first tick reloads the memory) and whose
  file is absent, \<open>load\<close> succeeds and \<open>isClaimed()\<close> is still true.
\<close>

theorem load_absent_keeps_state_counterexample:
  "load NoFile (setAgentId (IsoDate 0) (str ''bot'') newMemoryStore)
     = Inr (setAgentId (IsoDate 0) (str ''bot'') newMemoryStore) \<and>
   isClaimed (setAgentId (IsoDate 0) (str ''bot'') newMemoryStore) \<and>
   state (setAgentId (IsoDate 0) (str ''bot'') newMemoryStore) \<noteq> emptyState"
proof -
  have "agentId (state (setAgentId (IsoDate 0) (str ''bot'') newMemoryStore)) \<noteq> agentId emptyState"
    by (simp add: setAgentId_def emptyState_def)
  then have "state (setAgentId (IsoDate 0) (str ''bot'') newMemoryStore) \<noteq> emptyState"
    by auto
  moreover have "isClaimed (setAgentId (IsoDate 0) (str ''bot'') newMemoryStore)"
    by (simp add: isClaimed_def setAgentId_def truthy_def str_def)
  ultimately show ?thesis
    by (simp add: load_absent)
qed

text \<open>
  C6, amended. \<open>load\<close> on an absent file is not an error and leaves the store as it
  was; on a freshly constructed store that is the default empty state, for which
  \<open>getContext()\<close> returns empty lists and \<open>isClaimed()\<close> is false. Every other read
  failure is propagated: a \<open>readFile\<close> error with a code other than ENOENT, the
  SyntaxError of a text that is not JSON, the TypeError of the text \<open>null\<close>; so \<open>load\<close>
  fails exactly when the path holds something other than a JSON object or nothing, and
  an error it returns never has the code ENOENT. A file that holds an object replaces
  the state by the object's fields, the missing ones defaulted.
\<close>

theorem load_absent_or_failing:
  "load NoFile m = Inr m \<and>
   load NoFile newMemoryStore = Inr newMemoryStore \<and>
   state newMemoryStore = emptyState \<and>
   getContext newMemoryStore =
     \<lparr> ctx_recentDecisions = [], ctx_agentPostIds = [], ctx_agentCommentIds = [],
       ctx_recentAgentMemory = [] \<rparr> \<and>
   \<not> isClaimed newMemoryStore \<and>
   (c \<noteq> str ''ENOENT'' \<longrightarrow> load (Unreadable c) m = Inl (ErrnoException c)) \<and>
   load (FileWith NotJson) m = Inl SyntaxError \<and>
   load (FileWith JsonNull) m = Inl TypeError \<and>
   load (FileWith (JsonObject d)) m = Inr (m\<lparr> state := stateOfDoc d \<rparr>) \<and>
   (load disk m = Inl e \<longrightarrow> errorCode e \<noteq> Some (str ''ENOENT'') \<and> disk \<noteq> NoFile)"
proof -
  have "load disk m = Inl e \<longrightarrow> errorCode e \<noteq> Some (str ''ENOENT'') \<and> disk \<noteq> NoFile"
  proof (cases disk)
    case NoFile
    then show ?thesis by (simp add: load_absent)
  next
    case (FileWith t)
    then show ?thesis
      by (cases t) (auto simp: load_malformed load_null load_object errorCode_def)
  next
    case (Unreadable c')
    then show ?thesis
      by (auto simp: load_unreadable errorCode_def)
  qed
  moreover have "state newMemoryStore = emptyState"
    by (simp add: newMemoryStore_def)
  ultimately show ?thesis
    by (simp add: load_absent load_unreadable load_malformed load_null load_object
        getContext_new not_claimed_new)
qed

theorem load_absent_or_failing_witness:
  "load (Unreadable (str ''EACCES'')) newMemoryStore = Inl (ErrnoException (str ''EACCES'')) \<and>
   errorCode (ErrnoException (str ''EACCES'')) \<noteq> Some (str ''ENOENT'') \<and>
   load NoFile (markThreadSeen (str ''t1'') newMemoryStore) = Inr (markThreadSeen (str ''t1'') newMemoryStore)"
proof -
  have ne: "str ''EACCES'' \<noteq> str ''ENOENT''"
    by (simp add: str_def)
  note unreadable = load_absent_or_failing [of newMemoryStore "str ''EACCES''" undefined
      "Unreadable (str ''EACCES'')" "ErrnoException (str ''EACCES'')"]
  note absent = load_absent_or_failing [of "markThreadSeen (str ''t1'') newMemoryStore"]
  from unreadable ne have "load (Unreadable (str ''EACCES'')) newMemoryStore = Inl (ErrnoException (str ''EACCES''))"
    by blast
  with unreadable absent show ?thesis
    by blast
qed

section \<open>The duplicate-post fingerprint across a restart\<close>

lemma pushCapped_not_Nil: "0 < cap \<Longrightarrow> pushCapped cap x xs \<noteq> []"
proof
  assume "0 < cap" and "pushCapped cap x xs = []"
  then have "length (pushCapped cap x xs) = 0" by simp
  with \<open>0 < cap\<close> show False by (simp add: length_pushCapped)
qed

lemma mem_pushCapped: "0 < cap \<Longrightarrow> x \<in> set (pushCapped cap x xs)"
  using last_in_set [OF pushCapped_not_Nil, of cap x xs] by (simp add: last_pushCapped)

lemma hashes_stateOfDoc_stringify:
  "JSON_stringify st = JsonObject d \<Longrightarrow>
   recentPostContentHashes (stateOfDoc d) = recentPostContentHashes st"
  by (auto simp: JSON_stringify_def stateOfDoc_def orElse_def)

lemma stateOfDoc_stringify:
  "JSON_stringify st = JsonObject d \<Longrightarrow>
   stateOfDoc d = st\<lparr> firstPostAttempted := Some (orElse (firstPostAttempted st) False) \<rparr>"
  by (auto simp: JSON_stringify_def stateOfDoc_def orElse_def)

lemma isDuplicatePost_added: "isDuplicatePost lc t c (addAgentPostContent lc t c m)"
  by (simp add: isDuplicatePost_def addAgentPostContent_def mem_pushCapped MAX_RECENT_POST_HASHES_def)

lemma save_added:
  "save io (addAgentPostContent lc t c m) disk =
     (case io of
        Some e \<Rightarrow> Inl e
      | None \<Rightarrow> Inr ((addAgentPostContent lc t c m)\<lparr> dirty := False \<rparr>,
                    FileWith (JSON_stringify (state (addAgentPostContent lc t c m)))))"
proof -
  have "dirty (addAgentPostContent lc t c m)"
    by (simp add: addAgentPostContent_def)
  then show ?thesis
    by (simp add: save_def)
qed

lemma load_saved:
  "load (FileWith (JSON_stringify st)) m =
     Inr (m\<lparr> state := st\<lparr> firstPostAttempted := Some (orElse (firstPostAttempted st) False) \<rparr> \<rparr>)"
proof -
  obtain d where d: "JSON_stringify st = JsonObject d"
    by (simp add: JSON_stringify_def)
  then show ?thesis
    by (simp add: load_object stateOfDoc_stringify)
qed

text \<open>
  C9. Whenever \<open>save()\<close> after \<open>addAgentPostContent(title, content)\<close> returns (its
  \<open>mkdir\<close> and \<open>writeFile\<close> did not throw, whatever was at the path before), a freshly
  constructed store that loads what \<open>save\<close> left at the path loads without an error,
  holds the same list of post fingerprints as the saving store, and reports
  \<open>isDuplicatePost(title, content)\<close> as true. When the two file operations succeed
  \<open>save\<close> does return: \<open>addAgentPostContent\<close> has set the dirty flag, so the write is not
  skipped.
\<close>

theorem duplicate_post_survives_restart:
  "(save io (addAgentPostContent lc t c m) disk = Inr (m', disk') \<longrightarrow>
      (\<exists>m''. load disk' newMemoryStore = Inr m'' \<and>
         recentPostContentHashes (state m'') = recentPostContentHashes (state m') \<and>
         isDuplicatePost lc t c m'')) \<and>
   (\<exists>m1 disk1. save None (addAgentPostContent lc t c m) disk = Inr (m1, disk1))"
proof (intro conjI impI)
  assume saved: "save io (addAgentPostContent lc t c m) disk = Inr (m', disk')"
  let ?a = "addAgentPostContent lc t c m"
  from saved have m': "m' = ?a\<lparr> dirty := False \<rparr>"
    and disk': "disk' = FileWith (JSON_stringify (state ?a))"
    by (auto simp: save_added split: option.splits)
  let ?m'' = "newMemoryStore\<lparr> state := (state ?a)\<lparr> firstPostAttempted :=
      Some (orElse (firstPostAttempted (state ?a)) False) \<rparr> \<rparr>"
  have "load disk' newMemoryStore = Inr ?m''"
    by (simp only: disk' load_saved)
  moreover have "recentPostContentHashes (state ?m'') = recentPostContentHashes (state m')"
    by (simp add: m')
  moreover have "isDuplicatePost lc t c ?m''"
    using isDuplicatePost_added [of lc t c m] by (simp add: isDuplicatePost_def)
  ultimately show "\<exists>m''. load disk' newMemoryStore = Inr m'' \<and>
      recentPostContentHashes (state m'') = recentPostContentHashes (state m') \<and>
      isDuplicatePost lc t c m''"
    by blast
next
  show "\<exists>m1 disk1. save None (addAgentPostContent lc t c m) disk = Inr (m1, disk1)"
    by (simp add: save_added)
qed

theorem duplicate_post_survives_restart_witness:
  "\<exists>m' disk' m''.
     save None (addAgentPostContent asciiLowerCase (str ''Hello'') (str ''First post'') newMemoryStore) NoFile
       = Inr (m', disk') \<and>
     load disk' newMemoryStore = Inr m'' \<and>
     isDuplicatePost asciiLowerCase (str ''Hello'') (str ''First post'') m''"
proof -
  obtain m' disk' where
    s: "save None (addAgentPostContent asciiLowerCase (str ''Hello'') (str ''First post'') newMemoryStore) NoFile
          = Inr (m', disk')"
    by (simp add: save_added)
  with duplicate_post_survives_restart [of None asciiLowerCase "str ''Hello''" "str ''First post''"
      newMemoryStore NoFile m' disk']
  show ?thesis by blast
qed

section \<open>The sliding window of posts\<close>

lemma posts_addContentHash [simp]:
  "postsInLastHour (addContentHash lc c s) = postsInLastHour s"
  by (simp add: addContentHash_def Let_def)

lemma posts_recordPost:
  "postsInLastHour (recordAction lc t RecPost rc s) = postsInLastHour s @ [t]"
  by (simp add: recordAction_def Let_def)

lemma posts_recordPosts:
  "postsInLastHour (recordPosts lc rs s) = postsInLastHour s @ map fst rs"
  by (induction rs arbitrary: s) (simp_all add: posts_recordPost)

lemma posts_slideWindow:
  "postsInLastHour (slideWindow now s) = filter (\<lambda>t. now - 3600000 < t) (postsInLastHour s)"
  by (simp add: slideWindow_def)

lemma contentChecks_slideWindow [simp]:
  "contentChecks lc cfg (slideWindow now s) c = contentChecks lc cfg s c"
  by (auto simp: contentChecks_def slideWindow_def isRepetition_def split: option.splits)

lemma submoltCooldown_slideWindow [simp]:
  "submoltCooldown cfg now ctx (slideWindow now' s) = submoltCooldown cfg now ctx s"
  by (simp add: submoltCooldown_def slideWindow_def)

lemma maxCommentsExceeded_slideWindow [simp]:
  "maxCommentsExceeded cfg d ctx (slideWindow now s) = maxCommentsExceeded cfg d ctx s"
  by (simp add: maxCommentsExceeded_def slideWindow_def)

text \<open>What \<open>validate\<close> returns for a post decision that passes the confidence gate.\<close>

lemma validate_post:
  "action d = Post \<Longrightarrow> confidenceThreshold cfg \<le> confidence d \<Longrightarrow>
   validate lc cfg now d ctx s =
     (if maxPostsExceeded cfg (slideWindow now s) then Rejected ''max posts per hour exceeded''
      else case contentChecks lc cfg s (content d) of
             Some r \<Rightarrow> Rejected r
           | None \<Rightarrow> if submoltCooldown cfg now ctx s then Rejected ''submolt cooldown'' else Allowed,
      slideWindow now s)"
  by (simp add: validate_def Let_def split: option.splits)

lemma window_full:
  assumes "\<forall>r\<in>set rs. now - 3600000 < fst r"
  shows "length rs \<le> length (postsInLastHour (slideWindow now (recordPosts lc rs s)))"
proof -
  from assms have "filter (\<lambda>t. now - 3600000 < t) (map fst rs) = map fst rs"
    by (simp add: filter_id_conv)
  then show ?thesis
    by (simp add: posts_slideWindow posts_recordPosts)
qed

lemma window_after_expiry:
  assumes "rs \<noteq> []" and "fst (hd rs) \<le> now - 3600000"
  shows "length (postsInLastHour (slideWindow now (recordPosts lc rs newPolicyEngine))) < length rs"
proof -
  from assms obtain r rest where rs: "rs = r # rest" and old: "\<not> now - 3600000 < fst r"
    by (cases rs) auto
  have posts: "postsInLastHour (recordPosts lc rs newPolicyEngine) = fst r # map fst rest"
    by (simp only: posts_recordPosts rs) (simp add: newPolicyEngine_def)
  have "length (filter (\<lambda>t. now - 3600000 < t) (fst r # map fst rest)) < length rs"
    using old by (simp add: rs less_Suc_eq_le)
  then show ?thesis
    by (simp only: posts_slideWindow posts)
qed

text \<open>
  C4. Let a post decision pass the confidence gate (confidence at or above the
  threshold) and let \<open>maxPostsPerHour\<close> be N. After N \<open>recordAction("post", ...)\<close> calls
  whose clock readings all lie within the last 60 minutes (on an engine in any state),
  \<open>validate\<close> rejects the decision with "max posts per hour exceeded". \<open>validate\<close>
  keeps in the window exactly the timestamps \<open>t\<close> with \<open>t > now - 3600000\<close> and counts
  those: on a fresh engine with the same N recorded posts, once the first of them is 60
  minutes old or older, the decision is allowed provided no other rule of \<open>validate\<close>
  fires (the content checks and the submolt cooldown).
\<close>

theorem sliding_window_of_posts:
  "action d = Post \<and> confidenceThreshold cfg \<le> confidence d \<and>
   maxPostsPerHour cfg = of_nat (length rs) \<longrightarrow>
     postsInLastHour (snd (validate lc cfg now d ctx s)) =
       filter (\<lambda>t. now - 60 * 60 * 1000 < t) (postsInLastHour s) \<and>
     ((\<forall>r\<in>set rs. now - 60 * 60 * 1000 < fst r) \<longrightarrow>
        fst (validate lc cfg now d ctx (recordPosts lc rs s)) =
          Rejected ''max posts per hour exceeded'') \<and>
     (rs \<noteq> [] \<and> fst (hd rs) \<le> now - 60 * 60 * 1000 \<and>
      contentChecks lc cfg (recordPosts lc rs newPolicyEngine) (content d) = None \<and>
      \<not> submoltCooldown cfg now ctx (recordPosts lc rs newPolicyEngine) \<longrightarrow>
        fst (validate lc cfg now d ctx (recordPosts lc rs newPolicyEngine)) = Allowed)"
proof (intro impI conjI; elim conjE)
  assume d: "action d = Post" "confidenceThreshold cfg \<le> confidence d"
  show "postsInLastHour (snd (validate lc cfg now d ctx s)) =
      filter (\<lambda>t. now - 60 * 60 * 1000 < t) (postsInLastHour s)"
    by (simp add: validate_post [OF d] posts_slideWindow)
next
  assume d: "action d = Post" "confidenceThreshold cfg \<le> confidence d"
    and n: "maxPostsPerHour cfg = of_nat (length rs)"
    and recent: "\<forall>r\<in>set rs. now - 60 * 60 * 1000 < fst r"
  from recent have "length rs \<le> length (postsInLastHour (slideWindow now (recordPosts lc rs s)))"
    by (intro window_full) simp
  then have "maxPostsExceeded cfg (slideWindow now (recordPosts lc rs s))"
    by (simp add: maxPostsExceeded_def n)
  then show "fst (validate lc cfg now d ctx (recordPosts lc rs s)) =
      Rejected ''max posts per hour exceeded''"
    by (simp add: validate_post [OF d])
next
  assume d: "action d = Post" "confidenceThreshold cfg \<le> confidence d"
    and n: "maxPostsPerHour cfg = of_nat (length rs)"
    and rs: "rs \<noteq> []" "fst (hd rs) \<le> now - 60 * 60 * 1000"
    and ok: "contentChecks lc cfg (recordPosts lc rs newPolicyEngine) (content d) = None"
      "\<not> submoltCooldown cfg now ctx (recordPosts lc rs newPolicyEngine)"
  from rs have "length (postsInLastHour (slideWindow now (recordPosts lc rs newPolicyEngine))) < length rs"
    by (intro window_after_expiry) simp_all
  then have "\<not> maxPostsExceeded cfg (slideWindow now (recordPosts lc rs newPolicyEngine))"
    by (simp add: maxPostsExceeded_def n)
  with ok show "fst (validate lc cfg now d ctx (recordPosts lc rs newPolicyEngine)) = Allowed"
    by (simp add: validate_post [OF d])
qed

theorem sliding_window_of_posts_witness:
  "fst (validate asciiLowerCase (DEFAULT_CONFIG\<lparr> maxPostsPerHour := 1 \<rparr>) 1000
      \<lparr> action = Post, targetId = None, title = Some (str ''Hi''), content = Some (str ''hello''),
        voteDirection = None, confidence = 9 / 10 \<rparr>
      \<lparr> submoltId = Some (str ''general''), threadId = None, actionSource = Post \<rparr>
      (recordPosts asciiLowerCase
        [(0, \<lparr> rec_submoltId = Some (str ''general''), rec_threadId = None, rec_content = None \<rparr>)]
        newPolicyEngine))
     = Rejected ''max posts per hour exceeded'' \<and>
   fst (validate asciiLowerCase (DEFAULT_CONFIG\<lparr> maxPostsPerHour := 1 \<rparr>) 3600000
      \<lparr> action = Post, targetId = None, title = Some (str ''Hi''), content = Some (str ''hello''),
        voteDirection = None, confidence = 9 / 10 \<rparr>
      \<lparr> submoltId = Some (str ''general''), threadId = None, actionSource = Post \<rparr>
      (recordPosts asciiLowerCase
        [(0, \<lparr> rec_submoltId = Some (str ''general''), rec_threadId = None, rec_content = None \<rparr>)]
        newPolicyEngine))
     = Allowed"
proof -
  let ?cfg = "DEFAULT_CONFIG\<lparr> maxPostsPerHour := 1 \<rparr>"
  let ?d = "\<lparr> action = Post, targetId = None, title = Some (str ''Hi''), content = Some (str ''hello''),
        voteDirection = None, confidence = 9 / 10 \<rparr>"
  let ?ctx = "\<lparr> submoltId = Some (str ''general''), threadId = None, actionSource = Post \<rparr>"
  let ?rs = "[(0 :: int, \<lparr> rec_submoltId = Some (str ''general''), rec_threadId = None, rec_content = None \<rparr>)]"
  have d: "action ?d = Post \<and> confidenceThreshold ?cfg \<le> confidence ?d \<and>
      maxPostsPerHour ?cfg = of_nat (length ?rs)"
    by (simp add: DEFAULT_CONFIG_def)
  have recent: "\<forall>r\<in>set ?rs. 1000 - 60 * 60 * 1000 < fst r"
    by simp
  have later: "?rs \<noteq> [] \<and> fst (hd ?rs) \<le> 3600000 - 60 * 60 * 1000 \<and>
      contentChecks asciiLowerCase ?cfg (recordPosts asciiLowerCase ?rs newPolicyEngine) (content ?d) = None \<and>
      \<not> submoltCooldown ?cfg 3600000 ?ctx (recordPosts asciiLowerCase ?rs newPolicyEngine)"
    by (simp add: contentChecks_def isRepetition_def submoltCooldown_def DEFAULT_CONFIG_def
        recordAction_def newPolicyEngine_def truthy_def Let_def str_def)
  from sliding_window_of_posts [where d = ?d and cfg = ?cfg and rs = ?rs and lc = asciiLowerCase
      and now = 1000 and ctx = ?ctx and s = newPolicyEngine] d recent
  have full: "fst (validate asciiLowerCase ?cfg 1000 ?d ?ctx (recordPosts asciiLowerCase ?rs newPolicyEngine))
      = Rejected ''max posts per hour exceeded''"
    by blast
  from sliding_window_of_posts [where d = ?d and cfg = ?cfg and rs = ?rs and lc = asciiLowerCase
      and now = 3600000 and ctx = ?ctx and s = newPolicyEngine] d later
  have "fst (validate asciiLowerCase ?cfg 3600000 ?d ?ctx (recordPosts asciiLowerCase ?rs newPolicyEngine))
      = Allowed"
    by blast
  with full show ?thesis
    by (rule conjI)
qed

section \<open>The comment limit\<close>

text \<open>
  C7. The claim resolves the thread of a comment decision as \<open>decision.targetId\<close>,
  falling back to \<open>context.threadId\<close>. \<open>validate\<close> evaluates
  \<open>context.threadId ?? decision.targetId\<close>: the context's thread first. After three
  \<open>recordAction("comment", {threadId: "t1"})\<close> calls, with the default limit of 3, the
  decision \<open>{action: "comment", targetId: "t1", content: "hi", confidence: 0.8}\<close> is
  allowed when the context names another thread ("p1"), although thread "t1" holds 3
  recorded comments; it is rejected with "max comments per thread exceeded" only when
  the context names no thread.
\<close>

theorem comment_limit_uses_context_thread:
  "commentsByThread
     (recordComments asciiLowerCase
        [(1000, \<lparr> rec_submoltId = None, rec_threadId = Some (str ''t1''), rec_content = None \<rparr>),
         (2000, \<lparr> rec_submoltId = None, rec_threadId = Some (str ''t1''), rec_content = None \<rparr>),
         (3000, \<lparr> rec_submoltId = None, rec_threadId = Some (str ''t1''), rec_content = None \<rparr>)]
        newPolicyEngine) (str ''t1'') = Some 3 \<and>
   fst (validate asciiLowerCase DEFAULT_CONFIG 4000
      \<lparr> action = Comment, targetId = Some (str ''t1''), title = None, content = Some (str ''hi''),
        voteDirection = None, confidence = 8 / 10 \<rparr>
      \<lparr> submoltId = Some (str ''general''), threadId = Some (str ''p1''), actionSource = Comment \<rparr>
      (recordComments asciiLowerCase
        [(1000, \<lparr> rec_submoltId = None, rec_threadId = Some (str ''t1''), rec_content = None \<rparr>),
         (2000, \<lparr> rec_submoltId = None, rec_threadId = Some (str ''t1''), rec_content = None \<rparr>),
         (3000, \<lparr> rec_submoltId = None, rec_threadId = Some (str ''t1''), rec_content = None \<rparr>)]
        newPolicyEngine))
     = Allowed \<and>
   fst (validate asciiLowerCase DEFAULT_CONFIG 4000
      \<lparr> action = Comment, targetId = Some (str ''t1''), title = None, content = Some (str ''hi''),
        voteDirection = None, confidence = 8 / 10 \<rparr>
      \<lparr> submoltId = Some (str ''general''), threadId = None, actionSource = Comment \<rparr>
      (recordComments asciiLowerCase
        [(1000, \<lparr> rec_submoltId = None, rec_threadId = Some (str ''t1''), rec_content = None \<rparr>),
         (2000, \<lparr> rec_submoltId = None, rec_threadId = Some (str ''t1''), rec_content = None \<rparr>),
         (3000, \<lparr> rec_submoltId = None, rec_threadId = Some (str ''t1''), rec_content = None \<rparr>)]
        newPolicyEngine))
     = Rejected ''max comments per thread exceeded''"
  by (simp add: validate_def slideWindow_def maxCommentsExceeded_def contentChecks_def
      isRepetition_def nullish_def recordAction_def newPolicyEngine_def DEFAULT_CONFIG_def
      truthy_def str_def Let_def)

theorem comment_limit_uses_context_thread_witness:
  "fst (validate asciiLowerCase DEFAULT_CONFIG 4000
      \<lparr> action = Comment, targetId = Some (str ''t1''), title = None, content = Some (str ''hi''),
        voteDirection = None, confidence = 8 / 10 \<rparr>
      \<lparr> submoltId = Some (str ''general''), threadId = Some (str ''p1''), actionSource = Comment \<rparr>
      (recordComments asciiLowerCase
        [(1000, \<lparr> rec_submoltId = None, rec_threadId = Some (str ''t1''), rec_content = None \<rparr>),
         (2000, \<lparr> rec_submoltId = None, rec_threadId = Some (str ''t1''), rec_content = None \<rparr>),
         (3000, \<lparr> rec_submoltId = None, rec_threadId = Some (str ''t1''), rec_content = None \<rparr>)]
        newPolicyEngine))
     \<noteq> Rejected ''max comments per thread exceeded''"
  using comment_limit_uses_context_thread by simp

text \<open>
  The same divergence inside the pipeline. \<open>decideAndExecute\<close> passes
  \<open>threadId: postId\<close> to \<open>validate\<close> and records an executed comment under
  \<open>decision.targetId ?? postId\<close>. With three comments recorded for "t1", a fourth
  comment decision with \<open>targetId: "t1"\<close>, met while post "p1" is processed, is executed
  and recorded as the fourth comment of "t1".
\<close>

lemma comment_limit_bypassed_in_pipeline:
  "fst (decideAndExecute asciiLowerCase DEFAULT_CONFIG
      \<lparr> tickIntervalMinutes = 5, postIntervalMinutes = 30, dryRun = False, usePersonalizedFeed = None \<rparr>
      \<lparr> decided = Some \<lparr> action = Comment, targetId = Some (str ''t1''), title = None,
          content = Some (str ''hi''), voteDirection = None, confidence = 8 / 10 \<rparr>,
        platform = Some (str ''c4''), atValidate = 4000, atRateGate = 4000, atLastPost = 4000,
        atRecord = 4000 \<rparr>
      (str ''p1'') (str ''general'')
      \<lparr> policy = recordComments asciiLowerCase
          [(1000, \<lparr> rec_submoltId = None, rec_threadId = Some (str ''t1''), rec_content = None \<rparr>),
           (2000, \<lparr> rec_submoltId = None, rec_threadId = Some (str ''t1''), rec_content = None \<rparr>),
           (3000, \<lparr> rec_submoltId = None, rec_threadId = Some (str ''t1''), rec_content = None \<rparr>)]
          newPolicyEngine,
        memory = newMemoryStore, executed = [], recorded = [] \<rparr>)
     = Some (\<lparr> action = Comment, targetId = Some (str ''t1''), title = None,
          content = Some (str ''hi''), voteDirection = None, confidence = 8 / 10 \<rparr>, Executed) \<and>
   commentsByThread (policy (snd (decideAndExecute asciiLowerCase DEFAULT_CONFIG
      \<lparr> tickIntervalMinutes = 5, postIntervalMinutes = 30, dryRun = False, usePersonalizedFeed = None \<rparr>
      \<lparr> decided = Some \<lparr> action = Comment, targetId = Some (str ''t1''), title = None,
          content = Some (str ''hi''), voteDirection = None, confidence = 8 / 10 \<rparr>,
        platform = Some (str ''c4''), atValidate = 4000, atRateGate = 4000, atLastPost = 4000,
        atRecord = 4000 \<rparr>
      (str ''p1'') (str ''general'')
      \<lparr> policy = recordComments asciiLowerCase
          [(1000, \<lparr> rec_submoltId = None, rec_threadId = Some (str ''t1''), rec_content = None \<rparr>),
           (2000, \<lparr> rec_submoltId = None, rec_threadId = Some (str ''t1''), rec_content = None \<rparr>),
           (3000, \<lparr> rec_submoltId = None, rec_threadId = Some (str ''t1''), rec_content = None \<rparr>)]
          newPolicyEngine,
        memory = newMemoryStore, executed = [], recorded = [] \<rparr>))) (str ''t1'') = Some 4"
  by (simp add: decideAndExecute_def validate_def slideWindow_def maxCommentsExceeded_def
      contentChecks_def isRepetition_def nullish_def executeComment_def orElse_def
      recordAction_def addContentHash_def newPolicyEngine_def DEFAULT_CONFIG_def
      truthy_def str_def Let_def)

section \<open>Normalisation and the words of a text\<close>

lemma isWhiteSpace_space [simp]: "isWhiteSpace 32"
  by (simp add: isWhiteSpace_def)

lemma trimEnd_Nil [simp]: "trimEnd [] = []"
  by (simp add: trimEnd_def)

lemma trimEnd_eq_Nil: "trimEnd s = [] \<longleftrightarrow> (\<forall>c\<in>set s. isWhiteSpace c)"
  by (simp add: trimEnd_def)

lemma trimEnd_append:
  "trimEnd (a @ b) = (if trimEnd b = [] then trimEnd a else a @ trimEnd b)"
  by (simp add: trimEnd_def dropWhile_append)

lemma trimEnd_words:
  assumes "\<forall>c\<in>set w. \<not> isWhiteSpace c"
  shows "trimEnd w = w"
proof -
  have "dropWhile isWhiteSpace (rev w) = rev w"
    by (rule dropWhile_id) (use assms in simp)
  then show ?thesis
    by (simp add: trimEnd_def)
qed

lemma trimStart_words: "\<forall>c\<in>set w. \<not> isWhiteSpace c \<Longrightarrow> w \<noteq> [] \<Longrightarrow> trimStart (w @ x) = w @ x"
  by (cases w) (simp_all add: trimStart_def)

lemma trimStart_id: "s = [] \<or> \<not> isWhiteSpace (hd s) \<Longrightarrow> trimStart s = s"
  by (simp add: trimStart_def dropWhile_eq_self_iff)

lemma collapse_no_leading:
  "s = [] \<or> \<not> isWhiteSpace (hd s) \<Longrightarrow>
   collapseWhiteSpace s = [] \<or> \<not> isWhiteSpace (hd (collapseWhiteSpace s))"
  by (cases s) auto

lemma dropWhile_no_leading:
  "dropWhile isWhiteSpace cs = [] \<or> \<not> isWhiteSpace (hd (dropWhile isWhiteSpace cs))"
  using hd_dropWhile [of isWhiteSpace cs] by blast

lemma wordsFrom_dropWhile: "wordsFrom [] (dropWhile isWhiteSpace cs) = wordsFrom [] cs"
  by (induction cs) simp_all

lemma wordsFrom_nonempty:
  "v \<in> set (wordsFrom w s) \<Longrightarrow> v \<noteq> []"
  by (induction w s rule: wordsFrom.induct) (auto split: if_splits)

lemma concat_spaced:
  "\<forall>v\<in>set R. v \<noteq> [] \<Longrightarrow>
   concat (map (\<lambda>v. 32 # v) R) = (if joinWords R = [] then [] else 32 # joinWords R)"
  by (cases R) (simp_all add: joinWords_def)

text \<open>
  What \<open>replace(/\s+/g, " ").trim()\<close> leaves of a text that follows a word in progress
  \<open>w\<close>: the words, joined by single spaces.
\<close>

lemma trim_collapse_words:
  "\<forall>c\<in>set w. \<not> isWhiteSpace c \<Longrightarrow>
   trim (w @ collapseWhiteSpace s) = joinWords (wordsFrom w s)"
proof (induction s arbitrary: w rule: collapseWhiteSpace.induct)
  case 1
  then have "trimStart w = w" "trimEnd w = w"
    by (simp_all add: trimStart_def trimEnd_words)
  then show ?case
    by (simp add: trim_def joinWords_def)
next
  case (2 c cs)
  show ?case
  proof (cases "isWhiteSpace c")
    case False
    with "2.prems" have "\<forall>x\<in>set (w @ [c]). \<not> isWhiteSpace x"
      by simp
    from "2.IH"(2) [OF False this] False show ?thesis
      by simp
  next
    case True
    let ?X = "collapseWhiteSpace (dropWhile isWhiteSpace cs)"
    let ?R = "wordsFrom [] cs"
    have "trim ([] @ ?X) = joinWords (wordsFrom [] (dropWhile isWhiteSpace cs))"
      by (rule "2.IH"(1) [OF True]) simp
    then have trimX: "trim ?X = joinWords ?R"
      by (simp add: wordsFrom_dropWhile)
    have "trimStart ?X = ?X"
      by (intro trimStart_id collapse_no_leading dropWhile_no_leading)
    with trimX have endX: "trimEnd ?X = joinWords ?R"
      by (simp add: trim_def)
    have end32: "trimEnd (32 # ?X) = (if joinWords ?R = [] then [] else 32 # joinWords ?R)"
      using trimEnd_append [of "[32]" ?X] by (simp add: endX trimEnd_eq_Nil)
    show ?thesis
    proof (cases "w = []")
      case True
      have "trim (32 # ?X) = trim ?X"
        by (simp add: trim_def trimStart_def)
      with True \<open>isWhiteSpace c\<close> trimX show ?thesis
        by simp
    next
      case False
      with "2.prems" have "trimStart (w @ 32 # ?X) = w @ 32 # ?X"
        by (intro trimStart_words)
      then have "trim (w @ 32 # ?X) = trimEnd (w @ 32 # ?X)"
        by (simp add: trim_def)
      also have "\<dots> = (if joinWords ?R = [] then w else w @ 32 # joinWords ?R)"
        using "2.prems" by (simp add: trimEnd_append [of w] end32 trimEnd_words)
      also have "\<dots> = w @ concat (map (\<lambda>v. 32 # v) ?R)"
        using concat_spaced [of ?R] wordsFrom_nonempty [of _ "[]" cs] by auto
      also have "\<dots> = joinWords (wordsFrom w (c # cs))"
        using False \<open>isWhiteSpace c\<close> by (simp add: joinWords_def)
      finally show ?thesis
        using \<open>isWhiteSpace c\<close> by simp
    qed
  qed
qed

lemma normalize_words: "normalize lc s = joinWords (wordsOf (lc s))"
  using trim_collapse_words [of "[]" "lc s"] by (simp add: normalize_def wordsOf_def)

lemma same_words_same_hash:
  "sameUpToCaseAndWhiteSpace lc a b \<Longrightarrow> simpleHash lc a = simpleHash lc b"
  by (simp add: sameUpToCaseAndWhiteSpace_def simpleHash_def normalize_words)

section \<open>Repetition detection\<close>

lemma hash_recorded: "simpleHash lc c \<in> set (recentContentHashes (addContentHash lc c s))"
proof (cases "recentContentHashes s")
  case Nil
  then show ?thesis
    by (simp add: addContentHash_def maxRecentHashes_def)
next
  case (Cons h hs)
  then show ?thesis
    by (simp add: addContentHash_def Let_def)
qed

lemma hash_recorded_by_recordAction:
  "rec_content rc = Some c \<Longrightarrow> c \<noteq> [] \<Longrightarrow>
   simpleHash lc c \<in> set (recentContentHashes (recordAction lc t a rc s))"
  by (cases a) (simp_all add: recordAction_def Let_def truthy_def hash_recorded)

lemma validate_comment:
  "action d = Comment \<Longrightarrow> confidenceThreshold cfg \<le> confidence d \<Longrightarrow>
   validate lc cfg now d ctx s =
     (if maxCommentsExceeded cfg d ctx s then Rejected ''max comments per thread exceeded''
      else case contentChecks lc cfg s (content d) of
             Some r \<Rightarrow> Rejected r
           | None \<Rightarrow> Allowed,
      slideWindow now s)"
  by (simp add: validate_def Let_def split: option.splits)

text \<open>
  C10, as the claim states it, fails for an empty text: \<open>validate\<close> runs the content
  checks only under \<open>if (decision.content)\<close>, and the empty string is falsy. After
  \<open>recordAction\<close> has recorded the content " " (one space; its fingerprint "0" is in the
  history), a post decision whose content is "" (the same text up to white space) is
  allowed.
\<close>

theorem empty_content_not_checked_counterexample:
  "recentContentHashes
     (recordAction asciiLowerCase 1000 RecPost
        \<lparr> rec_submoltId = None, rec_threadId = None, rec_content = Some (str '' '') \<rparr> newPolicyEngine)
     = [str ''0''] \<and>
   sameUpToCaseAndWhiteSpace asciiLowerCase (str '' '') (str '''') \<and>
   fst (validate asciiLowerCase DEFAULT_CONFIG 2000
      \<lparr> action = Post, targetId = None, title = Some (str ''Hi''), content = Some (str ''''),
        voteDirection = None, confidence = 9 / 10 \<rparr>
      \<lparr> submoltId = None, threadId = None, actionSource = Post \<rparr>
      (recordAction asciiLowerCase 1000 RecPost
        \<lparr> rec_submoltId = None, rec_threadId = None, rec_content = Some (str '' '') \<rparr> newPolicyEngine))
     = Allowed"
proof -
  have "simpleHash asciiLowerCase (str '' '') = str ''0''"
    by (simp add: simpleHash_def normalize_def asciiLowerCase_def trim_def trimStart_def
        trimEnd_def rollingHash_def String_of_int_def str_def)
  then have "recentContentHashes
     (recordAction asciiLowerCase 1000 RecPost
        \<lparr> rec_submoltId = None, rec_threadId = None, rec_content = Some (str '' '') \<rparr> newPolicyEngine)
     = [str ''0'']"
    by (simp add: recordAction_def addContentHash_def newPolicyEngine_def truthy_def
        maxRecentHashes_def Let_def) (simp add: str_def)
  moreover have "sameUpToCaseAndWhiteSpace asciiLowerCase (str '' '') (str '''')"
    by (simp add: sameUpToCaseAndWhiteSpace_def wordsOf_def asciiLowerCase_def str_def)
  moreover have "fst (validate asciiLowerCase DEFAULT_CONFIG 2000
      \<lparr> action = Post, targetId = None, title = Some (str ''Hi''), content = Some (str ''''),
        voteDirection = None, confidence = 9 / 10 \<rparr>
      \<lparr> submoltId = None, threadId = None, actionSource = Post \<rparr>
      (recordAction asciiLowerCase 1000 RecPost
        \<lparr> rec_submoltId = None, rec_threadId = None, rec_content = Some (str '' '') \<rparr> newPolicyEngine))
     = Allowed"
    by (simp add: validate_post posts_slideWindow posts_recordPost maxPostsExceeded_def
        contentChecks_def submoltCooldown_def truthy_def DEFAULT_CONFIG_def newPolicyEngine_def
        str_def)
  ultimately show ?thesis
    by blast
qed

text \<open>
  C10, amended. Let \<open>recordAction\<close> (for a post or a comment) record a non-empty
  content C, and let a post or comment decision pass the confidence gate with a
  non-empty content C' that differs from C only in case and white space: lower-cased,
  both have the same words. If no earlier rule fires (the post window is not full for a
  post, the thread is not full for a comment, C' is not longer than
  \<open>maxContentLength\<close>), \<open>validate\<close> right after the recording rejects the decision with
  "repetition detected": both texts normalise to their words joined by single spaces, so
  they have one fingerprint, which \<open>recordAction\<close> has put into the history.
\<close>

theorem repetition_detected:
  "rec_content rc = Some c \<and> c \<noteq> [] \<and>
   (action d = Post \<or> action d = Comment) \<and> confidenceThreshold cfg \<le> confidence d \<and>
   content d = Some c' \<and> c' \<noteq> [] \<and> sameUpToCaseAndWhiteSpace lc c c' \<and>
   (action d = Post \<longrightarrow> \<not> maxPostsExceeded cfg (slideWindow now (recordAction lc t a rc s))) \<and>
   (action d = Comment \<longrightarrow> \<not> maxCommentsExceeded cfg d ctx (recordAction lc t a rc s)) \<and>
   of_nat (length c') \<le> maxContentLength cfg \<longrightarrow>
     normalize lc c' = normalize lc c \<and>
     fst (validate lc cfg now d ctx (recordAction lc t a rc s)) = Rejected ''repetition detected''"
proof (intro impI; elim conjE)
  assume rc: "rec_content rc = Some c" "c \<noteq> []"
    and act: "action d = Post \<or> action d = Comment"
    and conf: "confidenceThreshold cfg \<le> confidence d"
    and c': "content d = Some c'" "c' \<noteq> []"
    and same: "sameUpToCaseAndWhiteSpace lc c c'"
    and post: "action d = Post \<longrightarrow> \<not> maxPostsExceeded cfg (slideWindow now (recordAction lc t a rc s))"
    and comment: "action d = Comment \<longrightarrow> \<not> maxCommentsExceeded cfg d ctx (recordAction lc t a rc s)"
    and len: "of_nat (length c') \<le> maxContentLength cfg"
  let ?s = "recordAction lc t a rc s"
  from same have norm: "normalize lc c' = normalize lc c"
    by (simp add: sameUpToCaseAndWhiteSpace_def normalize_words)
  from same have "simpleHash lc c' = simpleHash lc c"
    by (simp add: same_words_same_hash)
  with hash_recorded_by_recordAction [OF rc, of lc t a s] have "isRepetition lc ?s c'"
    by (simp add: isRepetition_def)
  with c' len have checks: "contentChecks lc cfg ?s (content d) = Some ''repetition detected''"
    by (simp add: contentChecks_def)
  from act have "fst (validate lc cfg now d ctx ?s) = Rejected ''repetition detected''"
  proof
    assume p: "action d = Post"
    with post checks show ?thesis
      by (simp add: validate_post [OF p conf])
  next
    assume k: "action d = Comment"
    with comment checks show ?thesis
      by (simp add: validate_comment [OF k conf])
  qed
  with norm show "normalize lc c' = normalize lc c \<and>
      fst (validate lc cfg now d ctx ?s) = Rejected ''repetition detected''"
    by (rule conjI)
qed

theorem repetition_detected_witness:
  "fst (validate asciiLowerCase DEFAULT_CONFIG 2000
      \<lparr> action = Comment, targetId = Some (str ''t1''), title = None,
        content = Some (str '' hello   WORLD''), voteDirection = None, confidence = 9 / 10 \<rparr>
      \<lparr> submoltId = Some (str ''general''), threadId = Some (str ''t1''), actionSource = Comment \<rparr>
      (recordAction asciiLowerCase 1000 RecComment
        \<lparr> rec_submoltId = None, rec_threadId = Some (str ''t1''),
          rec_content = Some (str ''Hello World'') \<rparr> newPolicyEngine))
     = Rejected ''repetition detected'' \<and>
   fst (validate asciiLowerCase DEFAULT_CONFIG 700000
      \<lparr> action = Post, targetId = None, title = Some (str ''Again''),
        content = Some (str ''HELLO world ''), voteDirection = None, confidence = 9 / 10 \<rparr>
      \<lparr> submoltId = Some (str ''general''), threadId = None, actionSource = Post \<rparr>
      (recordAction asciiLowerCase 1000 RecPost
        \<lparr> rec_submoltId = Some (str ''general''), rec_threadId = None,
          rec_content = Some (str ''Hello World'') \<rparr> newPolicyEngine))
     = Rejected ''repetition detected''"
proof -
  let ?dc = "\<lparr> action = Comment, targetId = Some (str ''t1''), title = None,
        content = Some (str '' hello   WORLD''), voteDirection = None, confidence = 9 / 10 \<rparr>"
  let ?cc = "\<lparr> submoltId = Some (str ''general''), threadId = Some (str ''t1''), actionSource = Comment \<rparr>"
  let ?rc = "\<lparr> rec_submoltId = None, rec_threadId = Some (str ''t1''),
          rec_content = Some (str ''Hello World'') \<rparr>"
  let ?dp = "\<lparr> action = Post, targetId = None, title = Some (str ''Again''),
        content = Some (str ''HELLO world ''), voteDirection = None, confidence = 9 / 10 \<rparr>"
  let ?cp = "\<lparr> submoltId = Some (str ''general''), threadId = None, actionSource = Post \<rparr>"
  let ?rp = "\<lparr> rec_submoltId = Some (str ''general''), rec_threadId = None,
          rec_content = Some (str ''Hello World'') \<rparr>"
  have w1: "sameUpToCaseAndWhiteSpace asciiLowerCase (str ''Hello World'') (str '' hello   WORLD'')"
    by (simp add: sameUpToCaseAndWhiteSpace_def wordsOf_def asciiLowerCase_def str_def
        isWhiteSpace_def)
  have w2: "sameUpToCaseAndWhiteSpace asciiLowerCase (str ''Hello World'') (str ''HELLO world '')"
    by (simp add: sameUpToCaseAndWhiteSpace_def wordsOf_def asciiLowerCase_def str_def
        isWhiteSpace_def)
  have hc: "rec_content ?rc = Some (str ''Hello World'') \<and> str ''Hello World'' \<noteq> [] \<and>
      (action ?dc = Post \<or> action ?dc = Comment) \<and>
      confidenceThreshold DEFAULT_CONFIG \<le> confidence ?dc \<and>
      content ?dc = Some (str '' hello   WORLD'') \<and> str '' hello   WORLD'' \<noteq> [] \<and>
      (action ?dc = Post \<longrightarrow>
        \<not> maxPostsExceeded DEFAULT_CONFIG (slideWindow 2000 (recordAction asciiLowerCase 1000 RecComment ?rc newPolicyEngine))) \<and>
      (action ?dc = Comment \<longrightarrow>
        \<not> maxCommentsExceeded DEFAULT_CONFIG ?dc ?cc (recordAction asciiLowerCase 1000 RecComment ?rc newPolicyEngine)) \<and>
      of_nat (length (str '' hello   WORLD'')) \<le> maxContentLength DEFAULT_CONFIG"
    by (simp add: DEFAULT_CONFIG_def maxCommentsExceeded_def nullish_def truthy_def
        recordAction_def addContentHash_def newPolicyEngine_def Let_def str_def)
  have hp: "rec_content ?rp = Some (str ''Hello World'') \<and> str ''Hello World'' \<noteq> [] \<and>
      (action ?dp = Post \<or> action ?dp = Comment) \<and>
      confidenceThreshold DEFAULT_CONFIG \<le> confidence ?dp \<and>
      content ?dp = Some (str ''HELLO world '') \<and> str ''HELLO world '' \<noteq> [] \<and>
      (action ?dp = Post \<longrightarrow>
        \<not> maxPostsExceeded DEFAULT_CONFIG (slideWindow 700000 (recordAction asciiLowerCase 1000 RecPost ?rp newPolicyEngine))) \<and>
      (action ?dp = Comment \<longrightarrow>
        \<not> maxCommentsExceeded DEFAULT_CONFIG ?dp ?cp (recordAction asciiLowerCase 1000 RecPost ?rp newPolicyEngine)) \<and>
      of_nat (length (str ''HELLO world '')) \<le> maxContentLength DEFAULT_CONFIG"
    by (simp add: DEFAULT_CONFIG_def maxPostsExceeded_def posts_slideWindow posts_recordPost
        newPolicyEngine_def str_def)
  from repetition_detected [where rc = ?rc and c = "str ''Hello World''" and d = ?dc
      and cfg = DEFAULT_CONFIG and c' = "str '' hello   WORLD''" and lc = asciiLowerCase
      and now = 2000 and t = 1000 and a = RecComment and s = newPolicyEngine and ctx = ?cc] hc w1
  have r1: "fst (validate asciiLowerCase DEFAULT_CONFIG 2000 ?dc ?cc
      (recordAction asciiLowerCase 1000 RecComment ?rc newPolicyEngine)) = Rejected ''repetition detected''"
    by blast
  from repetition_detected [where rc = ?rp and c = "str ''Hello World''" and d = ?dp
      and cfg = DEFAULT_CONFIG and c' = "str ''HELLO world ''" and lc = asciiLowerCase
      and now = 700000 and t = 1000 and a = RecPost and s = newPolicyEngine and ctx = ?cp] hp w2
  have "fst (validate asciiLowerCase DEFAULT_CONFIG 700000 ?dp ?cp
      (recordAction asciiLowerCase 1000 RecPost ?rp newPolicyEngine)) = Rejected ''repetition detected''"
    by blast
  with r1 show ?thesis
    by (rule conjI)
qed

section \<open>The decision pipeline and recordAction\<close>














section \<open>Ticks in flight\<close>

lemma start_started: "intervalId s \<noteq> None \<Longrightarrow> start s = s"
  by (simp add: start_def)

lemma start_new:
  "start newScheduler = \<lparr> intervalId = Some 1, timeoutId = None, running = True, ticksInFlight = 1 \<rparr>"
  by (simp add: start_def tickInvoked_def newScheduler_def)

lemma timer_while_running:
  "running s \<Longrightarrow> intervalId s \<noteq> None \<Longrightarrow>
   step TimerFires s = s\<lparr> ticksInFlight := ticksInFlight s + 1 \<rparr>"
  by (simp add: tickInvoked_def)

lemma timers_pile_up:
  "running s \<Longrightarrow> intervalId s \<noteq> None \<Longrightarrow>
   run (replicate k TimerFires) s = s\<lparr> ticksInFlight := ticksInFlight s + k \<rparr>"
proof (induction k arbitrary: s)
  case 0
  then show ?case by simp
next
  case (Suc k)
  let ?s = "s\<lparr> ticksInFlight := ticksInFlight s + 1 \<rparr>"
  from Suc.prems have "step TimerFires s = ?s"
    by (rule timer_while_running)
  moreover from Suc.prems have "run (replicate k TimerFires) ?s = ?s\<lparr> ticksInFlight := ticksInFlight ?s + k \<rparr>"
    by (intro Suc.IH) simp_all
  ultimately show ?case
    by simp
qed

lemma step_stopped:
  assumes "\<not> running s" and "intervalId s = None" and "e \<noteq> Start"
  shows "\<not> running (step e s) \<and> intervalId (step e s) = None \<and>
         ticksInFlight (step e s) \<le> ticksInFlight s"
  using assms by (cases e) (simp_all add: stop_def)

lemma run_stopped:
  "\<not> running s \<Longrightarrow> intervalId s = None \<Longrightarrow> Start \<notin> set es \<Longrightarrow>
   ticksInFlight (run es s) \<le> ticksInFlight s"
proof (induction es arbitrary: s)
  case Nil
  then show ?case by simp
next
  case (Cons e es)
  from Cons.prems have e: "e \<noteq> Start" and es: "Start \<notin> set es"
    by auto
  from step_stopped [OF Cons.prems(1,2) e]
  have st: "\<not> running (step e s)" "intervalId (step e s) = None"
    and le: "ticksInFlight (step e s) \<le> ticksInFlight s"
    by simp_all
  from Cons.IH [OF st es] le show ?case
    by simp
qed

text \<open>
  C3, as the claim states it, fails: \<open>start()\<close> invokes \<open>tick()\<close> and registers it with
  \<open>setInterval\<close>; the only guard of \<open>tick()\<close> is \<open>if (!this.running) return\<close>, and
  \<open>running\<close> stays true from \<open>start()\<close> to \<open>stop()\<close>. When the timer fires before the
  first tick has settled (a tick that takes longer than the interval), two tick bodies
  are in flight.
\<close>

theorem ticks_overlap_counterexample:
  "ticksInFlight (run [Start, TimerFires] newScheduler) = 2"
  by (simp add: start_def tickInvoked_def newScheduler_def)

text \<open>
  C3, amended. The scheduler registers one interval timer: \<open>start()\<close> on a started
  scheduler does nothing. While it is running, \<open>start()\<close> and every firing of the timer
  begin a tick body whether or not an earlier one has settled, so that after \<open>start()\<close>
  and k firings with no tick settled in between, k + 1 tick bodies are in flight: ticks
  slower than the interval overlap. Only \<open>stop()\<close> keeps tick bodies from beginning:
  after it, and until the next \<open>start()\<close>, the number of tick bodies in flight does not
  grow (those in flight run to their end).
\<close>

theorem ticks_begin_unguarded:
  "(intervalId s \<noteq> None \<longrightarrow> start s = s) \<and>
   (running s \<and> intervalId s \<noteq> None \<longrightarrow>
      ticksInFlight (step TimerFires s) = ticksInFlight s + 1) \<and>
   ticksInFlight (run (Start # replicate k TimerFires) newScheduler) = k + 1 \<and>
   (Start \<notin> set es \<longrightarrow> ticksInFlight (run es (stop s)) \<le> ticksInFlight s)"
proof (intro conjI impI)
  assume "intervalId s \<noteq> None"
  then show "start s = s"
    by (rule start_started)
next
  assume "running s \<and> intervalId s \<noteq> None"
  then have "step TimerFires s = s\<lparr> ticksInFlight := ticksInFlight s + 1 \<rparr>"
    by (intro timer_while_running) simp_all
  then show "ticksInFlight (step TimerFires s) = ticksInFlight s + 1"
    by simp
next
  have "run (replicate k TimerFires) (start newScheduler) =
      (start newScheduler)\<lparr> ticksInFlight := ticksInFlight (start newScheduler) + k \<rparr>"
    by (rule timers_pile_up) (simp_all add: start_new)
  then show "ticksInFlight (run (Start # replicate k TimerFires) newScheduler) = k + 1"
    by (simp add: start_new)
next
  assume "Start \<notin> set es"
  with run_stopped [of "stop s" es] show "ticksInFlight (run es (stop s)) \<le> ticksInFlight s"
    by (simp add: stop_def)
qed

theorem ticks_begin_unguarded_witness:
  "start (start newScheduler) = start newScheduler \<and>
   ticksInFlight (step TimerFires (start newScheduler)) = 2 \<and>
   ticksInFlight (run (Start # replicate 3 TimerFires) newScheduler) = 4 \<and>
   ticksInFlight (run [TimerFires, TickSettles, TimerFires] (stop (start newScheduler))) \<le> 1"
proof -
  have st: "intervalId (start newScheduler) \<noteq> None" "running (start newScheduler)"
    "ticksInFlight (start newScheduler) = 1"
    by (simp_all add: start_new)
  have es: "Start \<notin> set [TimerFires, TickSettles, TimerFires]"
    by simp
  from ticks_begin_unguarded [of "start newScheduler" 3 "[TimerFires, TickSettles, TimerFires]"] st es
  show ?thesis
    by simp
qed

section \<open>Schema validation of a decision\<close>

lemma parseAction_name: "parseAction (Some (JString (actionName a))) = Some a"
  by (cases a) (simp_all add: parseAction_def actionName_def str_def)

lemma property_action [simp]:
  "property [(str ''action'', v), (str ''confidence'', w)] ''action'' = Some v"
  by (simp add: property_def)

lemma property_confidence [simp]:
  "property [(str ''action'', v), (str ''confidence'', w)] ''confidence'' = Some w"
  by (simp add: property_def str_def)

lemma property_other:
  "property [(str ''action'', v), (str ''confidence'', w)] ''targetId'' = None"
  "property [(str ''action'', v), (str ''confidence'', w)] ''title'' = None"
  "property [(str ''action'', v), (str ''confidence'', w)] ''content'' = None"
  "property [(str ''action'', v), (str ''confidence'', w)] ''voteDirection'' = None"
  by (simp_all add: property_def str_def)

lemma safeParse_confidence:
  "DecisionSchema_safeParse j = Some d \<Longrightarrow> 0 \<le> confidence d \<and> confidence d \<le> 1"
  by (auto simp: DecisionSchema_safeParse_def parseConfidence_def
      split: Json.splits option.splits if_splits)

lemma safeParse_needs_confidence:
  "parseConfidence (property props ''confidence'') = None \<Longrightarrow>
   DecisionSchema_safeParse (JObject props) = None"
  by (simp add: DecisionSchema_safeParse_def split: option.splits)

lemma safeParse_needs_action:
  "parseAction (property props ''action'') = None \<Longrightarrow>
   DecisionSchema_safeParse (JObject props) = None"
  by (simp add: DecisionSchema_safeParse_def split: option.splits)

lemma safeParse_bare:
  "0 \<le> x \<Longrightarrow> x \<le> 1 \<Longrightarrow>
   DecisionSchema_safeParse (JObject [(str ''action'', JString (actionName a)), (str ''confidence'', JNumber x)]) =
     Some \<lparr> action = a, targetId = None, title = None, content = None, voteDirection = None,
            confidence = x \<rparr>"
  by (simp add: DecisionSchema_safeParse_def parseAction_name property_other
      parseOptionalString_def parseOptionalDirection_def parseConfidence_def)

lemma validate_vote_incomplete:
  "action d = Vote \<Longrightarrow> confidenceThreshold cfg \<le> confidence d \<Longrightarrow>
   \<not> truthy (targetId d) \<or> voteDirection d = None \<Longrightarrow>
   fst (validate lc cfg now d ctx s) = Rejected ''vote requires targetId and voteDirection''"
  by (auto simp: validate_def Let_def)

text \<open>
  C8, as the claim states it, fails: every field of \<open>DecisionSchema\<close> but \<open>action\<close> and
  \<open>confidence\<close> is \<open>.optional()\<close>, for every action. The reply
  \<open>{"action": "post", "confidence": 0.9}\<close>, with neither title nor content, passes the
  schema, and so does \<open>{"action": "vote", "confidence": 0.9}\<close> with no voteDirection.
\<close>

theorem schema_accepts_bare_post_counterexample:
  "DecisionSchema_safeParse
     (JObject [(str ''action'', JString (str ''post'')), (str ''confidence'', JNumber (9 / 10))]) =
     Some \<lparr> action = Post, targetId = None, title = None, content = None, voteDirection = None,
            confidence = 9 / 10 \<rparr> \<and>
   DecisionSchema_safeParse
     (JObject [(str ''action'', JString (str ''vote'')), (str ''confidence'', JNumber (9 / 10))]) =
     Some \<lparr> action = Vote, targetId = None, title = None, content = None, voteDirection = None,
            confidence = 9 / 10 \<rparr>"
  using safeParse_bare [of "9 / 10" Post] safeParse_bare [of "9 / 10" Vote]
  by (simp add: actionName_def)

text \<open>
  C8, amended. Schema validation rejects a reply whose action is not one of the four
  action names or whose confidence is missing, not a number or outside [0,1]: a decision
  that passes has a confidence in [0,1]. It does not require title, content, targetId
  or voteDirection for any action: an object that holds only an action name and a
  confidence in [0,1] passes, with those four fields undefined. The fields of a vote are
  required later, by \<open>validate\<close>: a vote decision that passes the confidence gate
  without a target id or without a vote direction is rejected with "vote requires
  targetId and voteDirection".
\<close>

theorem schema_requires_action_and_confidence_only:
  "(DecisionSchema_safeParse j = Some d \<longrightarrow> 0 \<le> confidence d \<and> confidence d \<le> 1) \<and>
   (parseConfidence (property props ''confidence'') = None \<longrightarrow>
      DecisionSchema_safeParse (JObject props) = None) \<and>
   (parseAction (property props ''action'') = None \<longrightarrow>
      DecisionSchema_safeParse (JObject props) = None) \<and>
   (0 \<le> x \<and> x \<le> 1 \<longrightarrow>
      DecisionSchema_safeParse
        (JObject [(str ''action'', JString (actionName a)), (str ''confidence'', JNumber x)]) =
        Some \<lparr> action = a, targetId = None, title = None, content = None, voteDirection = None,
               confidence = x \<rparr>) \<and>
   (action v = Vote \<and> confidenceThreshold cfg \<le> confidence v \<and>
    (\<not> truthy (targetId v) \<or> voteDirection v = None) \<longrightarrow>
      fst (validate lc cfg now v ctx s) = Rejected ''vote requires targetId and voteDirection'')"
  using safeParse_confidence [of j d] safeParse_needs_confidence [of props]
    safeParse_needs_action [of props] safeParse_bare [of x a]
    validate_vote_incomplete [of v cfg lc now ctx s]
  by blast

theorem schema_requires_action_and_confidence_only_witness:
  "DecisionSchema_safeParse
     (JObject [(str ''action'', JString (str ''post'')), (str ''confidence'', JNumber (3 / 2))]) = None \<and>
   DecisionSchema_safeParse (JObject [(str ''action'', JString (str ''post''))]) = None \<and>
   DecisionSchema_safeParse
     (JObject [(str ''action'', JString (str ''like'')), (str ''confidence'', JNumber (1 / 2))]) = None \<and>
   DecisionSchema_safeParse
     (JObject [(str ''action'', JString (actionName Comment)), (str ''confidence'', JNumber (1 / 2))]) =
     Some \<lparr> action = Comment, targetId = None, title = None, content = None, voteDirection = None,
            confidence = 1 / 2 \<rparr> \<and>
   fst (validate asciiLowerCase DEFAULT_CONFIG 1000
      \<lparr> action = Vote, targetId = None, title = None, content = None, voteDirection = None,
        confidence = 9 / 10 \<rparr>
      \<lparr> submoltId = Some (str ''general''), threadId = Some (str ''p1''), actionSource = Vote \<rparr>
      newPolicyEngine)
     = Rejected ''vote requires targetId and voteDirection''"
proof -
  let ?big = "[(str ''action'', JString (str ''post'')), (str ''confidence'', JNumber (3 / 2))]"
  let ?none = "[(str ''action'', JString (str ''post''))]"
  let ?like = "[(str ''action'', JString (str ''like'')), (str ''confidence'', JNumber (1 / 2))]"
  let ?vote = "\<lparr> action = Vote, targetId = None, title = None, content = None, voteDirection = None,
        confidence = 9 / 10 \<rparr>"
  have big: "parseConfidence (property ?big ''confidence'') = None"
    by (simp add: parseConfidence_def)
  have none: "parseConfidence (property ?none ''confidence'') = None"
    by (simp add: parseConfidence_def property_def str_def)
  have like: "parseAction (property ?like ''action'') = None"
    by (simp add: parseAction_def) (simp add: str_def)
  have half: "(0 :: rat) \<le> 1 / 2 \<and> (1 / 2 :: rat) \<le> 1"
    by simp
  have vote: "action ?vote = Vote \<and> confidenceThreshold DEFAULT_CONFIG \<le> confidence ?vote \<and>
      (\<not> truthy (targetId ?vote) \<or> voteDirection ?vote = None)"
    by (simp add: DEFAULT_CONFIG_def)
  from schema_requires_action_and_confidence_only [where props = ?big] big
  have a: "DecisionSchema_safeParse (JObject ?big) = None"
    by blast
  from schema_requires_action_and_confidence_only [where props = ?none] none
  have b: "DecisionSchema_safeParse (JObject ?none) = None"
    by blast
  from schema_requires_action_and_confidence_only [where props = ?like] like
  have c: "DecisionSchema_safeParse (JObject ?like) = None"
    by blast
  from schema_requires_action_and_confidence_only [where x = "1 / 2" and a = Comment] half
  have d: "DecisionSchema_safeParse
     (JObject [(str ''action'', JString (actionName Comment)), (str ''confidence'', JNumber (1 / 2))]) =
     Some \<lparr> action = Comment, targetId = None, title = None, content = None, voteDirection = None,
            confidence = 1 / 2 \<rparr>"
    by blast
  from schema_requires_action_and_confidence_only [where v = ?vote and cfg = DEFAULT_CONFIG
      and lc = asciiLowerCase and now = 1000
      and ctx = "\<lparr> submoltId = Some (str ''general''), threadId = Some (str ''p1''), actionSource = Vote \<rparr>"
      and s = newPolicyEngine] vote
  have e: "fst (validate asciiLowerCase DEFAULT_CONFIG 1000 ?vote
      \<lparr> submoltId = Some (str ''general''), threadId = Some (str ''p1''), actionSource = Vote \<rparr>
      newPolicyEngine) = Rejected ''vote requires targetId and voteDirection''"
    by blast
  from a b c d e show ?thesis
    by blast
qed

end
